theory Spec2Isabelle
  imports Complex_Main "HOL-Library.AList"
begin

section \<open>Python values used by utils.py\<close>

text \<open>
  Exceptions are values. \<open>LibError\<close> stands for anything raised inside librosa, torch,
  pandas or the operating system (decode errors, I/O errors, missing directories).
\<close>

datatype py_error = KeyError | IndexError | ValueError | LibError

text \<open>\<open>xs[i]\<close> for a non-negative index: IndexError when out of range.\<close>

definition list_get :: "'a list \<Rightarrow> nat \<Rightarrow> py_error + 'a" where
  "list_get xs i = (if i < length xs then Inr (xs ! i) else Inl IndexError)"

text \<open>
  Python slice bounds: a negative bound counts from the end, and every bound is clamped
  into \<open>0..len\<close>. \<open>xs[i:j]\<close> is empty when the normalised stop is not after the start.
\<close>

definition slice_index :: "nat \<Rightarrow> int \<Rightarrow> nat" where
  "slice_index n i = (if i < 0 then nat (max 0 (int n + i)) else min n (nat i))"

definition py_slice :: "int \<Rightarrow> int \<Rightarrow> 'a list \<Rightarrow> 'a list" where
  "py_slice i j xs =
     (let n = length xs; a = slice_index n i; b = slice_index n j
      in take (b - a) (drop a xs))"

text \<open>
  A 2-D numpy array: its rows, and the column count kept explicitly so that an array with
  no rows still has a shape. Axis 0 indexes \<open>rows\<close>, axis 1 the position inside a row.
\<close>

record 'a ndarray =
  ncols :: nat
  rows :: "'a list list"

definition nrows :: "'a ndarray \<Rightarrow> nat" where
  "nrows a = length (rows a)"

definition shape :: "'a ndarray \<Rightarrow> nat \<times> nat" where
  "shape a = (nrows a, ncols a)"

definition wf_array :: "'a ndarray \<Rightarrow> bool" where
  "wf_array a = list_all (\<lambda>r. length r = ncols a) (rows a)"

definition entry :: "'a ndarray \<Rightarrow> nat \<Rightarrow> nat \<Rightarrow> 'a" where
  "entry a r c = rows a ! r ! c"

text \<open>\<open>spec[0:h, 0:w]\<close> with non-negative bounds: the leading rows and columns.\<close>

definition crop :: "nat \<Rightarrow> nat \<Rightarrow> 'a ndarray \<Rightarrow> 'a ndarray" where
  "crop h w a = \<lparr>ncols = min w (ncols a), rows = map (take w) (take h (rows a))\<rparr>"

section \<open>FixSizeSpectrogram\<close>

text \<open>
  The loop of \<open>FixSizeSpectrogram\<close>: \<open>i\<close> is the index of \<open>enumerate\<close>, the pair of
  lists the two accumulators. \<open>shapes\<close> holds array dimensions, so its entries are
  naturals. Reading \<open>shapes[0]\<close>, \<open>shapes[1]\<close> or \<open>genres[i]\<close> out of range raises.
\<close>

fun FixSize_loop ::
  "'g list \<Rightarrow> nat list \<Rightarrow> nat \<Rightarrow> 'a ndarray list \<Rightarrow> 'a ndarray list \<times> 'g list
     \<Rightarrow> py_error + ('a ndarray list \<times> 'g list)" where
  "FixSize_loop genres shapes i [] acc = Inr acc"
| "FixSize_loop genres shapes i (spec # rest) (spectrograms_list, genres_list) =
     (case list_get shapes 0 of Inl e \<Rightarrow> Inl e | Inr s0 \<Rightarrow>
      case list_get shapes 1 of Inl e \<Rightarrow> Inl e | Inr s1 \<Rightarrow>
        if shape spec \<noteq> (s0, s1) then
          (case list_get genres i of Inl e \<Rightarrow> Inl e | Inr g \<Rightarrow>
             FixSize_loop genres shapes (Suc i) rest
               (spectrograms_list @ [crop s0 s1 spec], genres_list @ [g]))
        else
          (case list_get genres i of Inl e \<Rightarrow> Inl e | Inr g \<Rightarrow>
             FixSize_loop genres shapes (Suc i) rest
               (spectrograms_list @ [spec], genres_list @ [g])))"

definition FixSizeSpectrogram ::
  "'a ndarray list \<Rightarrow> 'g list \<Rightarrow> nat list
     \<Rightarrow> py_error + ('a ndarray list \<times> 'g list)" where
  "FixSizeSpectrogram spectrograms genres shapes =
     FixSize_loop genres shapes 0 spectrograms ([], [])"

section \<open>Directories\<close>

text \<open>
  \<open>list(path.iterdir())\<close>: the entries of a directory in the order the operating system
  yields them, or an error when the directory does not exist.
\<close>

datatype 'e directory = Missing | Dir "'e list"

definition iterdir :: "'e directory \<Rightarrow> py_error + 'e list" where
  "iterdir d = (case d of Missing \<Rightarrow> Inl LibError | Dir es \<Rightarrow> Inr es)"

section \<open>GetGenres\<close>

text \<open>
  A value of the \<open>genre_top\<close> column: a string, or pandas' NaN for an empty cell. The
  tracks table is kept as its rows \<open>(track_id, genre_top)\<close>.
\<close>

datatype cell = Str string | NaN

type_synonym tracks = "(int \<times> cell) list"

definition vocabulary :: "string list" where
  "vocabulary = [''Electronic'', ''Experimental'', ''Folk'', ''Hip-Hop'',
                 ''Instrumental'', ''International'', ''Pop'', ''Rock'']"

definition genre_dict :: "string \<rightharpoonup> int" where
  "genre_dict = map_of [(''Electronic'', 0), (''Experimental'', 1), (''Folk'', 2),
     (''Hip-Hop'', 3), (''Instrumental'', 4), (''International'', 5), (''Pop'', 6),
     (''Rock'', 7)]"

text \<open>\<open>dict_genre[key]\<close>: KeyError for a key the dictionary does not hold.\<close>

definition dict_getitem :: "(string \<rightharpoonup> int) \<Rightarrow> cell \<Rightarrow> py_error + int" where
  "dict_getitem d key =
     (case key of NaN \<Rightarrow> Inl KeyError
      | Str s \<Rightarrow> (case d s of None \<Rightarrow> Inl KeyError | Some v \<Rightarrow> Inr v))"

text \<open>
  \<open>tracks.loc[tracks.track_id == k, 'genre_top'].values[0]\<close>: the cell of the first row
  with that identifier, IndexError when no row has it.
\<close>

definition genre_top_of :: "tracks \<Rightarrow> int \<Rightarrow> py_error + cell" where
  "genre_top_of tracks k =
     (case filter (\<lambda>row. fst row = k) tracks of
        [] \<Rightarrow> Inl IndexError
      | row # _ \<Rightarrow> Inr (snd row))"

text \<open>
  The loop of \<open>GetGenres\<close> over the directory entries \<open>(str(direc), direc.is_file())\<close>.
  Python's \<open>int\<close> on a string is the parameter \<open>to_int\<close>; it raises ValueError on text
  that is not a number.
\<close>

fun GetGenres_loop ::
  "(string \<Rightarrow> py_error + int) \<Rightarrow> (string \<rightharpoonup> int) \<Rightarrow> tracks \<Rightarrow> (string \<times> bool) list
     \<Rightarrow> string list \<times> int list \<Rightarrow> py_error + (string list \<times> int list)" where
  "GetGenres_loop to_int dict_genre tracks [] acc = Inr acc"
| "GetGenres_loop to_int dict_genre tracks ((direc, is_file) # rest) (id_list, genre_list) =
     (if is_file then
        (let id_track = py_slice (- 10) (- 4) direc in
         case to_int id_track of Inl e \<Rightarrow> Inl e | Inr k \<Rightarrow>
         case genre_top_of tracks k of Inl e \<Rightarrow> Inl e | Inr g \<Rightarrow>
         case dict_getitem dict_genre g of Inl e \<Rightarrow> Inl e | Inr code \<Rightarrow>
           GetGenres_loop to_int dict_genre tracks rest
             (id_list @ [id_track], genre_list @ [code]))
      else GetGenres_loop to_int dict_genre tracks rest (id_list, genre_list))"

definition GetGenres ::
  "(string \<Rightarrow> py_error + int) \<Rightarrow> (string \<times> bool) directory \<Rightarrow> (string \<rightharpoonup> int) \<Rightarrow> tracks
     \<Rightarrow> py_error + (string list \<times> int list)" where
  "GetGenres to_int path dict_genre tracks =
     (case iterdir path of Inl e \<Rightarrow> Inl e
      | Inr entries \<Rightarrow> GetGenres_loop to_int dict_genre tracks entries ([], []))"

section \<open>ChargeDataset\<close>

text \<open>
  What \<open>torch.load\<close> finds in a file of the spectrogram directory: a saved array, or
  something it cannot read.
\<close>

datatype 'a file_content = Artifact "'a ndarray" | Unreadable

definition torch_load :: "'a file_content \<Rightarrow> py_error + 'a ndarray" where
  "torch_load c = (case c of Artifact a \<Rightarrow> Inr a | Unreadable \<Rightarrow> Inl LibError)"

text \<open>
  \<open>genre_list[np.argwhere(id_list == id_track)][0][0]\<close>: \<open>argwhere\<close> gives every position
  holding the identifier; indexing \<open>genre_list\<close> with them raises when one lies outside
  it; the first \<open>[0]\<close> raises when there is no position at all.
\<close>

definition lookup_genre :: "string list \<Rightarrow> 'g list \<Rightarrow> string \<Rightarrow> py_error + 'g" where
  "lookup_genre id_list genre_list id_track =
     (let hits = filter (\<lambda>k. id_list ! k = id_track) [0..<length id_list] in
      if list_ex (\<lambda>k. length genre_list \<le> k) hits then Inl IndexError
      else case hits of [] \<Rightarrow> Inl IndexError | k # _ \<Rightarrow> Inr (genre_list ! k))"

text \<open>
  One iteration of the loop of \<open>ChargeDataset\<close> on the entry \<open>(str(spec), content)\<close>;
  \<open>power_to_db\<close> is librosa's conversion, a parameter.
\<close>

definition ChargeDataset_body ::
  "('a ndarray \<Rightarrow> py_error + 'a ndarray) \<Rightarrow> string list \<Rightarrow> 'g list
     \<Rightarrow> string \<times> 'a file_content \<Rightarrow> py_error + ('a ndarray \<times> 'g)" where
  "ChargeDataset_body power_to_db id_list genre_list ent =
     (let id_track = py_slice 18 (- 3) (fst ent) in
      case lookup_genre id_list genre_list id_track of Inl e \<Rightarrow> Inl e | Inr label \<Rightarrow>
      case torch_load (snd ent) of Inl e \<Rightarrow> Inl e | Inr spec \<Rightarrow>
      case power_to_db spec of Inl e \<Rightarrow> Inl e | Inr spec' \<Rightarrow> Inr (spec', label))"

fun ChargeDataset_loop ::
  "('a ndarray \<Rightarrow> py_error + 'a ndarray) \<Rightarrow> string list \<Rightarrow> 'g list
     \<Rightarrow> (string \<times> 'a file_content) list \<Rightarrow> 'a ndarray list \<times> 'g list
     \<Rightarrow> py_error + ('a ndarray list \<times> 'g list)" where
  "ChargeDataset_loop power_to_db id_list genre_list [] acc = Inr acc"
| "ChargeDataset_loop power_to_db id_list genre_list (ent # rest) (images, labels) =
     (case ChargeDataset_body power_to_db id_list genre_list ent of
        Inl e \<Rightarrow> Inl e
      | Inr (spec, label) \<Rightarrow>
          ChargeDataset_loop power_to_db id_list genre_list rest
            (images @ [spec], labels @ [label]))"

definition ChargeDataset ::
  "('a ndarray \<Rightarrow> py_error + 'a ndarray) \<Rightarrow> (string \<times> 'a file_content) directory
     \<Rightarrow> string list \<Rightarrow> 'g list \<Rightarrow> py_error + ('a ndarray list \<times> 'g list)" where
  "ChargeDataset power_to_db path id_list genre_list =
     (case iterdir path of Inl e \<Rightarrow> Inl e
      | Inr entries \<Rightarrow> ChargeDataset_loop power_to_db id_list genre_list entries ([], []))"

section \<open>CreateSpectrograms\<close>

text \<open>
  \<open>librosa.load(file)\<close> is called with its defaults, so it returns a mono signal: the
  file's channels averaged sample by sample (\<open>librosa.to_mono\<close>, the mean over the
  channel axis), together with the sample rate. Reading the channels from the file
  (decoding and bringing them to the rate that \<open>load\<close> returns) is the parameter
  \<open>read_channels\<close>. Samples are taken as reals; no rounding is modelled.
\<close>

definition to_mono :: "real list list \<Rightarrow> real list" where
  "to_mono channels =
     (case channels of
        [] \<Rightarrow> []
      | c # _ \<Rightarrow>
          map (\<lambda>k. sum_list (map (\<lambda>ch. ch ! k) channels) / real (length channels))
            [0..<length c])"

text \<open>
  The other library calls are parameters too: \<open>melspectrogram\<close> is
  \<open>librosa.feature.melspectrogram(y, sr, n_fft, hop_length)\<close>, and \<open>save_ok\<close> tells
  whether \<open>torch.save\<close> of an array to a path succeeds.
\<close>

record audio_libs =
  read_channels :: "string \<Rightarrow> py_error + (real list list \<times> nat)"
  melspectrogram :: "real list \<Rightarrow> nat \<Rightarrow> nat \<Rightarrow> nat \<Rightarrow> py_error + real ndarray"
  save_ok :: "real ndarray \<Rightarrow> string \<Rightarrow> bool"

definition librosa_load :: "audio_libs \<Rightarrow> string \<Rightarrow> py_error + (real list \<times> nat)" where
  "librosa_load libs file =
     (case read_channels libs file of
        Inl e \<Rightarrow> Inl e
      | Inr (channels, sample_rate) \<Rightarrow> Inr (to_mono channels, sample_rate))"

text \<open>
  The local variable \<open>waveform\<close> holds the loaded signal, or, once the averaging
  statement has run on it, a single number.
\<close>

datatype waveform = Signal "real list" | Sample real

text \<open>
  The spectrogram directory is the list of its files \<open>(path, content)\<close>. A successful
  \<open>torch.save\<close> writes the file, replacing one of the same path; a failed one raises and
  leaves the directory as it was.
\<close>

type_synonym spec_files = "(string \<times> real file_content) list"

definition torch_save ::
  "audio_libs \<Rightarrow> real ndarray \<Rightarrow> string \<Rightarrow> spec_files \<Rightarrow> py_error + spec_files" where
  "torch_save libs spec path fs =
     (if save_ok libs spec path then Inr (AList.update path (Artifact spec) fs)
      else Inl LibError)"

definition artifact_path :: "string \<Rightarrow> string \<Rightarrow> string" where
  "artifact_path save_path file = save_path @ ''/'' @ py_slice (- 10) (- 4) file @ ''.pt''"

text \<open>
  The statements inside \<open>try\<close>, in source order, for one file. The result carries the
  final value of the local variable \<open>waveform\<close> together with the directory.
\<close>

definition CreateSpectrograms_body ::
  "audio_libs \<Rightarrow> string \<Rightarrow> string \<Rightarrow> spec_files \<Rightarrow> py_error + (waveform \<times> spec_files)" where
  "CreateSpectrograms_body libs save_path file fs =
     (case librosa_load libs file of Inl e \<Rightarrow> Inl e | Inr (waveform, sample_rate) \<Rightarrow>
      case melspectrogram libs waveform sample_rate 2048 512 of Inl e \<Rightarrow> Inl e | Inr spec \<Rightarrow>
      let waveform' =
            (if 1 < length waveform then Sample ((waveform ! 0 + waveform ! 1) / 2)
             else Signal waveform) in
      case torch_save libs spec (artifact_path save_path file) fs of Inl e \<Rightarrow> Inl e
      | Inr fs' \<Rightarrow> Inr (waveform', fs'))"

text \<open>The loop: \<open>except: pass\<close> drops every error of the body and goes on.\<close>

fun CreateSpectrograms_loop ::
  "audio_libs \<Rightarrow> string \<Rightarrow> string list \<Rightarrow> spec_files \<Rightarrow> spec_files" where
  "CreateSpectrograms_loop libs save_path [] fs = fs"
| "CreateSpectrograms_loop libs save_path (file # rest) fs =
     (case CreateSpectrograms_body libs save_path file fs of
        Inl e \<Rightarrow> CreateSpectrograms_loop libs save_path rest fs
      | Inr (waveform, fs') \<Rightarrow> CreateSpectrograms_loop libs save_path rest fs')"

definition CreateSpectrograms ::
  "audio_libs \<Rightarrow> (string \<times> bool) directory \<Rightarrow> string \<Rightarrow> spec_files
     \<Rightarrow> py_error + spec_files" where
  "CreateSpectrograms libs load_path save_path fs =
     (case iterdir load_path of Inl e \<Rightarrow> Inl e
      | Inr entries \<Rightarrow> Inr (CreateSpectrograms_loop libs save_path (map fst entries) fs))"

text \<open>A file is processed when the statements inside \<open>try\<close> all succeed on it.\<close>

definition processed :: "audio_libs \<Rightarrow> string \<Rightarrow> string \<Rightarrow> bool" where
  "processed libs save_path file =
     (case CreateSpectrograms_body libs save_path file [] of Inl e \<Rightarrow> False | Inr r \<Rightarrow> True)"

section \<open>spec_augment and DataSpecAugmentation\<close>

text \<open>
  The two random generators are streams of draws from \<open>[0, 1)\<close>: \<open>py_random\<close> for
  Python's \<open>random\<close>, \<open>np_random\<close> for \<open>numpy.random\<close>. A position counts the draws
  taken from each. Both \<open>uniform\<close> functions scale one draw into the interval.
\<close>

record randomness =
  py_random :: "nat \<Rightarrow> real"
  np_random :: "nat \<Rightarrow> real"

type_synonym rng_pos = "nat \<times> nat"

definition random_uniform :: "randomness \<Rightarrow> real \<Rightarrow> real \<Rightarrow> rng_pos \<Rightarrow> real \<times> rng_pos" where
  "random_uniform R a b p = (a + (b - a) * py_random R (fst p), (Suc (fst p), snd p))"

definition np_random_uniform ::
  "randomness \<Rightarrow> real \<Rightarrow> real \<Rightarrow> rng_pos \<Rightarrow> real \<times> rng_pos" where
  "np_random_uniform R low high p =
     (low + (high - low) * np_random R (snd p), (fst p, Suc (snd p)))"

definition unit_draws :: "randomness \<Rightarrow> bool" where
  "unit_draws R =
     (\<forall>k. 0 \<le> py_random R k \<and> py_random R k < 1 \<and> 0 \<le> np_random R k \<and> np_random R k < 1)"

text \<open>\<open>int(x)\<close> on a float: truncation towards zero.\<close>

definition py_int :: "real \<Rightarrow> int" where
  "py_int x = (if 0 \<le> x then \<lfloor>x\<rfloor> else \<lceil>x\<rceil>)"

text \<open>\<open>xs[i:j] = v\<close> broadcast over the slice.\<close>

definition fill_slice :: "int \<Rightarrow> int \<Rightarrow> 'a \<Rightarrow> 'a list \<Rightarrow> 'a list" where
  "fill_slice i j v xs =
     (let n = length xs; a = slice_index n i; b = slice_index n j
      in take a xs @ replicate (b - a) v @ drop (max a b) xs)"

text \<open>\<open>spec[:, i:j] = 0\<close> and \<open>spec[i:j, :] = 0\<close>.\<close>

definition zero_columns :: "int \<Rightarrow> int \<Rightarrow> 'a::zero ndarray \<Rightarrow> 'a ndarray" where
  "zero_columns i j a = a\<lparr>rows := map (fill_slice i j 0) (rows a)\<rparr>"

definition zero_rows :: "int \<Rightarrow> int \<Rightarrow> 'a::zero ndarray \<Rightarrow> 'a ndarray" where
  "zero_rows i j a = a\<lparr>rows := fill_slice i j (replicate (ncols a) 0) (rows a)\<rparr>"

text \<open>One pass of the body of the \<open>for\<close> loop of \<open>spec_augment\<close> on the array value.\<close>

definition mask_round ::
  "randomness \<Rightarrow> real \<Rightarrow> real \<Rightarrow> 'a::zero ndarray \<times> rng_pos \<Rightarrow> 'a ndarray \<times> rng_pos" where
  "mask_round R freq_masking_max_percentage time_masking_max_percentage st =
     (let spec = fst st;
          all_frames_num = fst (shape spec);
          all_freqs_num = snd (shape spec);
          (freq_percentage, p1) = random_uniform R 0 freq_masking_max_percentage (snd st);
          num_freqs_to_mask = py_int (freq_percentage * real all_freqs_num);
          (f0r, p2) =
            np_random_uniform R 0 (real all_freqs_num - real_of_int num_freqs_to_mask) p1;
          f0 = py_int f0r;
          spec1 = zero_columns f0 (f0 + num_freqs_to_mask) spec;
          (time_percentage, p3) = random_uniform R 0 time_masking_max_percentage p2;
          num_frames_to_mask = py_int (time_percentage * real all_frames_num);
          (t0r, p4) =
            np_random_uniform R 0 (real all_frames_num - real_of_int num_frames_to_mask) p3;
          t0 = py_int t0r;
          spec2 = zero_rows t0 (t0 + num_frames_to_mask) spec1
      in (spec2, p4))"

text \<open>
  Arrays are objects: a heap holds them, a list of spectrograms holds their addresses.
  \<open>spec.copy()\<close> allocates a new array; the slice assignments of \<open>spec_augment\<close> then
  update the array at that address in place.
\<close>

type_synonym 'a heap = "'a ndarray list"

definition ndarray_copy :: "'a heap \<Rightarrow> nat \<Rightarrow> nat \<times> 'a heap" where
  "ndarray_copy h r = (length h, h @ [h ! r])"

fun mask_rounds ::
  "randomness \<Rightarrow> nat \<Rightarrow> real \<Rightarrow> real \<Rightarrow> nat \<Rightarrow> 'a::zero heap \<times> rng_pos
     \<Rightarrow> 'a heap \<times> rng_pos" where
  "mask_rounds R 0 fm tm c st = st"
| "mask_rounds R (Suc n) fm tm c st =
     (let (a, p) = mask_round R fm tm (fst st ! c, snd st)
      in mask_rounds R n fm tm c ((fst st)[c := a], p))"

definition spec_augment ::
  "randomness \<Rightarrow> 'a::zero heap \<Rightarrow> nat \<Rightarrow> nat \<Rightarrow> real \<Rightarrow> real \<Rightarrow> rng_pos
     \<Rightarrow> nat \<times> 'a heap \<times> rng_pos" where
  "spec_augment R h spec num_mask freq_masking_max_percentage time_masking_max_percentage p =
     (let (c, h1) = ndarray_copy h spec;
          (h2, p') =
            mask_rounds R num_mask freq_masking_max_percentage time_masking_max_percentage
              c (h1, p)
      in (c, h2, p'))"

text \<open>
  The loop of \<open>DataSpecAugmentation\<close>, calling \<open>spec_augment\<close> with its defaults
  (\<open>num_mask = 2\<close>, 0.15, 0.25), and the two \<open>extend\<close> calls after it. The lists are
  mutated in place; the function returns their new values, the heap and the position
  of the generators.
\<close>

fun DataSpec_loop ::
  "randomness \<Rightarrow> 'g list \<Rightarrow> nat \<Rightarrow> nat list
     \<Rightarrow> (nat list \<times> 'g list) \<times> 'a::zero heap \<times> rng_pos
     \<Rightarrow> py_error + ((nat list \<times> 'g list) \<times> 'a heap \<times> rng_pos)" where
  "DataSpec_loop R genres_list i [] st = Inr st"
| "DataSpec_loop R genres_list i (spec # rest) ((new_spec, genre_augment), h, p) =
     (let (c, h', p') = spec_augment R h spec 2 (15 / 100) (25 / 100) p in
      case list_get genres_list i of Inl e \<Rightarrow> Inl e
      | Inr g \<Rightarrow>
          DataSpec_loop R genres_list (Suc i) rest
            ((new_spec @ [c], genre_augment @ [g]), h', p'))"

definition DataSpecAugmentation ::
  "randomness \<Rightarrow> nat list \<Rightarrow> 'g list \<Rightarrow> 'a::zero heap \<Rightarrow> rng_pos
     \<Rightarrow> py_error + (nat list \<times> 'g list \<times> 'a heap \<times> rng_pos)" where
  "DataSpecAugmentation R spec_list genres_list h p =
     (case DataSpec_loop R genres_list 0 spec_list (([], []), h, p) of
        Inl e \<Rightarrow> Inl e
      | Inr ((new_spec, genre_augment), h', p') \<Rightarrow>
          Inr (spec_list @ new_spec, genres_list @ genre_augment, h', p'))"

text \<open>What \<open>spec_augment\<close> computes from an array value: \<open>num_mask\<close> rounds in a row.\<close>

definition augmented ::
  "randomness \<Rightarrow> nat \<Rightarrow> real \<Rightarrow> real \<Rightarrow> 'a::zero ndarray \<times> rng_pos \<Rightarrow> 'a ndarray \<times> rng_pos"
  where
  "augmented R num_mask fm tm st = (mask_round R fm tm ^^ num_mask) st"

section \<open>LoadDataPipeline\<close>

text \<open>
  The outside world of the pipeline: what \<open>LoadFixCSV\<close> yields, the two directories,
  Python's \<open>int\<close> on strings, and the library functions (\<open>db_conversion\<close> is
  \<open>librosa.power_to_db\<close>).
\<close>

record world =
  csv :: "py_error + tracks"
  int_builtin :: "string \<Rightarrow> py_error + int"
  audio_dir :: "(string \<times> bool) directory"
  spec_dir :: "(string \<times> real file_content) directory"
  audio :: audio_libs
  db_conversion :: "real ndarray \<Rightarrow> py_error + real ndarray"

text \<open>\<open>np.unique\<close> of a list of shapes: every dimension that occurs, ascending.\<close>

definition np_unique :: "(nat \<times> nat) list \<Rightarrow> nat list" where
  "np_unique shape_list = sort (remdups (concat (map (\<lambda>(r, c). [r, c]) shape_list)))"

text \<open>
  The run is observed through its console lines and its calls of
  \<open>CreateSpectrograms\<close>. \<open>LoadDataPipeline\<close> gives that log, the spectrogram directory
  as the run leaves it (when the run got that far), and what it returns or raises.
\<close>

datatype event = Printed string | Called string

definition LoadDataPipeline ::
  "world \<Rightarrow> event list \<times> spec_files option \<times> (py_error + (real ndarray list \<times> int list))"
  where
  "LoadDataPipeline W =
     (case csv W of Inl e \<Rightarrow> ([], None, Inl e) | Inr tracks \<Rightarrow>
      let log1 = [Printed ''Tracks and Genres loaded''] in
      case GetGenres (int_builtin W) (audio_dir W) genre_dict tracks of
        Inl e \<Rightarrow> (log1, None, Inl e)
      | Inr (id_list, genre_list) \<Rightarrow>
      case iterdir (spec_dir W) of Inl e \<Rightarrow> (log1, None, Inl e) | Inr entries \<Rightarrow>
      let (log2, created) =
            (if length entries \<noteq> 7994
             then (log1 @ [Called ''CreateSpectrograms''],
                   CreateSpectrograms (audio W) (audio_dir W) ''data/Spectrograms'' entries)
             else (log1, Inr entries)) in
      case created of Inl e \<Rightarrow> (log2, Some entries, Inl e) | Inr fs \<Rightarrow>
      let log3 = log2 @ [Printed ''Spectrograms created''] in
      case ChargeDataset (db_conversion W) (Dir fs) id_list genre_list of
        Inl e \<Rightarrow> (log3, Some fs, Inl e)
      | Inr (spectrograms, genres) \<Rightarrow>
      let log4 = log3 @ [Printed ''Spectrograms loaded''];
          shapes = np_unique (map shape spectrograms) in
      case FixSizeSpectrogram spectrograms genres shapes of
        Inl e \<Rightarrow> (log4, Some fs, Inl e)
      | Inr r \<Rightarrow> (log4 @ [Printed ''Size fixed for Spectrograms''], Some fs, Inr r))"

text \<open>What one iteration appends to the spectrogram list.\<close>

definition fix_one :: "nat list \<Rightarrow> 'a ndarray \<Rightarrow> 'a ndarray" where
  "fix_one shapes spec =
     (if shape spec \<noteq> (shapes ! 0, shapes ! 1) then crop (shapes ! 0) (shapes ! 1) spec
      else spec)"

section \<open>Properties of cropping\<close>

lemma shape_crop: "shape (crop h w a) = (min h (nrows a), min w (ncols a))"
  by (simp add: shape_def nrows_def crop_def min.commute)

lemma nrows_crop: "nrows (crop h w a) = min h (nrows a)"
  by (simp add: nrows_def crop_def min.commute)

lemma ncols_crop: "ncols (crop h w a) = min w (ncols a)"
  by (simp add: crop_def)

lemma entry_crop:
  assumes "r < h" "r < nrows a" "c < w" "c < length (rows a ! r)"
  shows "entry (crop h w a) r c = entry a r c"
  using assms by (simp add: entry_def crop_def nrows_def)

lemma FixSize_loop_eq:
  assumes "2 \<le> length shapes" "i + length specs \<le> length genres"
  shows "FixSize_loop genres shapes i specs (sl, gl) =
           Inr (sl @ map (fix_one shapes) specs, gl @ take (length specs) (drop i genres))"
  using assms
proof (induction specs arbitrary: i sl gl)
  case Nil
  then show ?case by simp
next
  case (Cons spec rest)
  have g: "list_get genres i = Inr (genres ! i)"
    using Cons.prems by (simp add: list_get_def)
  have s: "list_get shapes 0 = Inr (shapes ! 0)" "list_get shapes (Suc 0) = Inr (shapes ! 1)"
    using Cons.prems by (auto simp: list_get_def)
  have d: "take (Suc (length rest)) (drop i genres)
             = genres ! i # take (length rest) (drop (Suc i) genres)"
    using Cons.prems by (simp add: Cons_nth_drop_Suc [symmetric])
  have ih: "\<And>sl gl. FixSize_loop genres shapes (Suc i) rest (sl, gl) =
           Inr (sl @ map (fix_one shapes) rest, gl @ take (length rest) (drop (Suc i) genres))"
    using Cons.IH [of "Suc i"] Cons.prems by simp
  show ?case
    by (simp add: g s d ih fix_one_def)
qed

lemma FixSizeSpectrogram_eq:
  assumes "2 \<le> length shapes" "length specs \<le> length genres"
  shows "FixSizeSpectrogram specs genres shapes =
           Inr (map (fix_one shapes) specs, take (length specs) genres)"
  using FixSize_loop_eq [of shapes 0 specs genres "[]" "[]"] assms
  by (simp add: FixSizeSpectrogram_def)

lemma wf_array_crop: "wf_array a \<Longrightarrow> w \<le> ncols a \<Longrightarrow> wf_array (crop h w a)"
  by (auto simp: wf_array_def crop_def list_all_iff dest: in_set_takeD)

text \<open>
  C3. When every input array has at least \<open>shapes[0]\<close> rows and at least \<open>shapes[1]\<close>
  columns, \<open>FixSizeSpectrogram\<close> returns one array per input, and every array it
  returns has shape exactly \<open>(shapes[0], shapes[1])\<close>: it holds \<open>shapes[0]\<close> rows of
  \<open>shapes[1]\<close> entries each.
\<close>

theorem FixSizeSpectrogram_shape:
  fixes specs :: "'a ndarray list"
  assumes "2 \<le> length shapes" and "length genres = length specs"
    and "\<forall>a \<in> set specs. wf_array a \<and> shapes ! 0 \<le> nrows a \<and> shapes ! 1 \<le> ncols a"
  shows "\<exists>out gl. FixSizeSpectrogram specs genres shapes = Inr (out, gl)
           \<and> length out = length specs \<and> length gl = length specs
           \<and> (\<forall>b \<in> set out. shape b = (shapes ! 0, shapes ! 1) \<and> wf_array b
                 \<and> length (rows b) = shapes ! 0
                 \<and> (\<forall>r \<in> set (rows b). length r = shapes ! 1))"
proof -
  have one: "shape (fix_one shapes a) = (shapes ! 0, shapes ! 1) \<and> wf_array (fix_one shapes a)
           \<and> length (rows (fix_one shapes a)) = shapes ! 0
           \<and> (\<forall>r \<in> set (rows (fix_one shapes a)). length r = shapes ! 1)"
    if "a \<in> set specs" for a
  proof -
    from that assms(3) have a: "wf_array a" "shapes ! 0 \<le> nrows a" "shapes ! 1 \<le> ncols a"
      by auto
    have sh: "shape (fix_one shapes a) = (shapes ! 0, shapes ! 1)"
      using a by (auto simp: fix_one_def shape_crop)
    have wf: "wf_array (fix_one shapes a)"
      using a by (simp add: fix_one_def wf_array_crop)
    from sh have "length (rows (fix_one shapes a)) = shapes ! 0"
      and nc: "ncols (fix_one shapes a) = shapes ! 1"
      by (simp_all add: shape_def nrows_def)
    moreover from wf nc have "\<forall>r \<in> set (rows (fix_one shapes a)). length r = shapes ! 1"
      by (simp add: wf_array_def list_all_iff)
    ultimately show ?thesis using sh wf by blast
  qed
  have eq: "FixSizeSpectrogram specs genres shapes = Inr (map (fix_one shapes) specs, genres)"
    using assms(1,2) by (simp add: FixSizeSpectrogram_eq)
  have "\<forall>b \<in> set (map (fix_one shapes) specs).
          shape b = (shapes ! 0, shapes ! 1) \<and> wf_array b \<and> length (rows b) = shapes ! 0
          \<and> (\<forall>r \<in> set (rows b). length r = shapes ! 1)"
    using one by auto
  moreover have "length (map (fix_one shapes) specs) = length specs" by simp
  ultimately show ?thesis
    using eq assms(2) by blast
qed

theorem FixSizeSpectrogram_shape_witness:
  "\<exists>out gl.
     FixSizeSpectrogram
       [\<lparr>ncols = 3, rows = [[1, 2, 3], [4, 5, 6], [7, 8, 9 :: int]]\<rparr>,
        \<lparr>ncols = 2, rows = [[7, 8], [9, 10]]\<rparr>] [6 :: int, 7] [2, 2] = Inr (out, gl)
     \<and> out = [\<lparr>ncols = 2, rows = [[1, 2], [4, 5]]\<rparr>, \<lparr>ncols = 2, rows = [[7, 8], [9, 10]]\<rparr>]
     \<and> length out = 2
     \<and> (\<forall>b \<in> set out. shape b = (2, 2) \<and> wf_array b \<and> length (rows b) = 2
           \<and> (\<forall>r \<in> set (rows b). length r = 2))"
proof -
  let ?a = "\<lparr>ncols = 3, rows = [[1, 2, 3], [4, 5, 6], [7, 8, 9 :: int]]\<rparr>"
  let ?b = "\<lparr>ncols = 2, rows = [[7, 8], [9, 10 :: int]]\<rparr>"
  have h1: "2 \<le> length [2, 2 :: nat]" by simp
  have h2: "length [6 :: int, 7] = length [?a, ?b]" by simp
  have h3: "\<forall>a \<in> set [?a, ?b]. wf_array a \<and> [2, 2] ! 0 \<le> nrows a \<and> [2, 2] ! 1 \<le> ncols a"
    by (simp add: wf_array_def nrows_def)
  have ev: "FixSizeSpectrogram [?a, ?b] [6 :: int, 7] [2, 2]
              = Inr ([\<lparr>ncols = 2, rows = [[1, 2], [4, 5]]\<rparr>, ?b], [6, 7])"
    by (simp add: FixSizeSpectrogram_def list_get_def shape_def nrows_def crop_def)
  from FixSizeSpectrogram_shape [OF h1 h2 h3]
  obtain out gl where r: "FixSizeSpectrogram [?a, ?b] [6 :: int, 7] [2, 2] = Inr (out, gl)"
    and l: "length out = length [?a, ?b]"
    and s: "\<forall>b \<in> set out. shape b = ([2, 2] ! 0, [2, 2] ! 1) \<and> wf_array b
                 \<and> length (rows b) = [2, 2] ! 0
                 \<and> (\<forall>r \<in> set (rows b). length r = [2, 2] ! 1)"
    by (elim exE conjE)
  from r ev have o: "out = [\<lparr>ncols = 2, rows = [[1, 2], [4, 5]]\<rparr>, ?b]"
    by simp
  from l have l2: "length out = 2" by simp
  from s have s2: "\<forall>b \<in> set out. shape b = (2, 2) \<and> wf_array b \<and> length (rows b) = 2
           \<and> (\<forall>r \<in> set (rows b). length r = 2)"
    by simp
  from r o l2 s2 show ?thesis by blast
qed

text \<open>
  C4. For matching label and array lists, \<open>FixSizeSpectrogram\<close> returns lists of the
  input length; the labels come back unchanged and in order; the i-th output array has
  the leading \<open>shapes[0]\<close> rows and \<open>shapes[1]\<close> columns of the i-th input array, entry
  for entry, and is the input array itself when its shape already is the target.
\<close>

theorem FixSizeSpectrogram_prefix:
  fixes specs :: "'a ndarray list"
  assumes "2 \<le> length shapes" and "length genres = length specs"
    and "\<forall>a \<in> set specs. wf_array a"
  shows "\<exists>out gl. FixSizeSpectrogram specs genres shapes = Inr (out, gl)
           \<and> length out = length specs \<and> gl = genres
           \<and> (\<forall>i < length specs.
                 out ! i = (if shape (specs ! i) = (shapes ! 0, shapes ! 1) then specs ! i
                            else crop (shapes ! 0) (shapes ! 1) (specs ! i))
               \<and> shape (out ! i) = (min (shapes ! 0) (nrows (specs ! i)),
                                     min (shapes ! 1) (ncols (specs ! i)))
               \<and> (\<forall>r < fst (shape (out ! i)). \<forall>c < snd (shape (out ! i)).
                     entry (out ! i) r c = entry (specs ! i) r c))"
proof -
  have eq: "FixSizeSpectrogram specs genres shapes = Inr (map (fix_one shapes) specs, genres)"
    using assms(1,2) by (simp add: FixSizeSpectrogram_eq)
  have sh: "shape (fix_one shapes a) = (min (shapes ! 0) (nrows a), min (shapes ! 1) (ncols a))"
    for a :: "'a ndarray"
    by (auto simp: fix_one_def shape_def nrows_crop ncols_crop)
  have el: "entry (fix_one shapes a) r c = entry a r c"
    if "wf_array a" "r < min (shapes ! 0) (nrows a)" "c < min (shapes ! 1) (ncols a)"
    for a :: "'a ndarray" and r c
  proof -
    have "length (rows a ! r) = ncols a"
      using that(1,2) by (simp add: wf_array_def list_all_length nrows_def)
    then show ?thesis
      using that(2,3) by (simp add: fix_one_def entry_crop)
  qed
  have "\<forall>i < length specs.
          map (fix_one shapes) specs ! i =
            (if shape (specs ! i) = (shapes ! 0, shapes ! 1) then specs ! i
             else crop (shapes ! 0) (shapes ! 1) (specs ! i))
        \<and> shape (map (fix_one shapes) specs ! i) =
            (min (shapes ! 0) (nrows (specs ! i)), min (shapes ! 1) (ncols (specs ! i)))
        \<and> (\<forall>r < fst (shape (map (fix_one shapes) specs ! i)).
             \<forall>c < snd (shape (map (fix_one shapes) specs ! i)).
               entry (map (fix_one shapes) specs ! i) r c = entry (specs ! i) r c)"
  proof (intro allI impI conjI)
    fix i assume i: "i < length specs"
    then have wf: "wf_array (specs ! i)" using assms(3) by simp
    show "map (fix_one shapes) specs ! i =
            (if shape (specs ! i) = (shapes ! 0, shapes ! 1) then specs ! i
             else crop (shapes ! 0) (shapes ! 1) (specs ! i))"
      using i by (simp add: fix_one_def)
    show "shape (map (fix_one shapes) specs ! i) =
            (min (shapes ! 0) (nrows (specs ! i)), min (shapes ! 1) (ncols (specs ! i)))"
      using i sh by simp
    fix r c
    assume "r < fst (shape (map (fix_one shapes) specs ! i))"
      and "c < snd (shape (map (fix_one shapes) specs ! i))"
    then show "entry (map (fix_one shapes) specs ! i) r c = entry (specs ! i) r c"
      using i wf el [of "specs ! i" r c] sh [of "specs ! i"] by simp
  qed
  moreover have "length (map (fix_one shapes) specs) = length specs"
    by simp
  ultimately show ?thesis
    using eq by blast
qed

theorem FixSizeSpectrogram_prefix_witness:
  "\<exists>out gl.
     FixSizeSpectrogram
       [\<lparr>ncols = 3, rows = [[1, 2, 3], [4, 5, 6], [0, 0, 0 :: int]]\<rparr>,
        \<lparr>ncols = 2, rows = [[7, 8], [9, 10]]\<rparr>] [6 :: int, 7] [2, 2] = Inr (out, gl)
     \<and> out = [\<lparr>ncols = 2, rows = [[1, 2], [4, 5]]\<rparr>, \<lparr>ncols = 2, rows = [[7, 8], [9, 10]]\<rparr>]
     \<and> gl = [6, 7]"
proof -
  let ?a = "\<lparr>ncols = 3, rows = [[1, 2, 3], [4, 5, 6], [0, 0, 0 :: int]]\<rparr>"
  let ?b = "\<lparr>ncols = 2, rows = [[7, 8], [9, 10 :: int]]\<rparr>"
  have h1: "2 \<le> length [2, 2 :: nat]" by simp
  have h2: "length [6 :: int, 7] = length [?a, ?b]" by simp
  have h3: "\<forall>a \<in> set [?a, ?b]. wf_array a" by (simp add: wf_array_def)
  obtain out gl where r: "FixSizeSpectrogram [?a, ?b] [6 :: int, 7] [2, 2] = Inr (out, gl)"
    and l: "length out = length [?a, ?b]" and g: "gl = [6, 7]"
    and e: "\<forall>i < length [?a, ?b].
              out ! i = (if shape ([?a, ?b] ! i) = ([2, 2] ! 0, [2, 2] ! 1) then [?a, ?b] ! i
                         else crop ([2, 2] ! 0) ([2, 2] ! 1) ([?a, ?b] ! i))"
    using FixSizeSpectrogram_prefix [OF h1 h2 h3] by blast
  have "out ! 0 = \<lparr>ncols = 2, rows = [[1, 2], [4, 5]]\<rparr>"
    using e by (simp add: shape_def nrows_def crop_def)
  moreover have "out ! 1 = ?b"
    using e by (simp add: shape_def nrows_def crop_def)
  moreover have "length out = 2" using l by simp
  ultimately have "out = [\<lparr>ncols = 2, rows = [[1, 2], [4, 5]]\<rparr>, ?b]"
    by (cases out; cases "tl out"; cases "tl (tl out)") auto
  then show ?thesis using r g by blast
qed

section \<open>Genre encoding\<close>

lemma genre_dict_dom: "dom genre_dict = set vocabulary"
  by (simp add: genre_dict_def vocabulary_def dom_map_of_conv_image_fst)

lemma dict_getitem_unknown:
  "g \<notin> set vocabulary \<Longrightarrow> dict_getitem genre_dict (Str g) = Inl KeyError"
  using genre_dict_dom by (auto simp: dict_getitem_def split: option.splits)

lemma GetGenres_loop_raises:
  assumes "(direc, True) \<in> set entries"
    and "\<forall>k g c. to_int (py_slice (- 10) (- 4) direc) = Inr k \<longrightarrow> genre_top_of tracks k = Inr g
           \<longrightarrow> dict_getitem d g \<noteq> Inr c"
  shows "\<exists>e. GetGenres_loop to_int d tracks entries acc = Inl e"
  using assms
proof (induction entries arbitrary: acc)
  case Nil
  then show ?case by simp
next
  case (Cons ent rest)
  obtain p f where ent: "ent = (p, f)" by (cases ent)
  obtain il gl where acc: "acc = (il, gl)" by (cases acc)
  show ?case
  proof (cases "ent = (direc, True)")
    case True
    then show ?thesis using Cons.prems(2) acc
      by (auto simp: Let_def split: sum.splits)
  next
    case False
    then have "(direc, True) \<in> set rest" using Cons.prems(1) by simp
    then have "\<And>acc. \<exists>e. GetGenres_loop to_int d tracks rest acc = Inl e"
      using Cons.IH Cons.prems(2) by blast
    then show ?thesis using ent acc
      by (auto simp: Let_def split: sum.splits)
  qed
qed

text \<open>
  C6. The genre dictionary holds exactly the eight vocabulary strings and maps them, in
  order, to 0, 1, ..., 7. Looking up any other string raises KeyError, and \<open>GetGenres\<close>
  raises whenever a file of the audio directory resolves to a genre outside the
  vocabulary: no default code is ever produced.
\<close>

theorem genre_encoding:
  "map genre_dict vocabulary = map Some [0, 1, 2, 3, 4, 5, 6, 7]
   \<and> dom genre_dict = set vocabulary
   \<and> (\<forall>g. g \<notin> set vocabulary \<longrightarrow> dict_getitem genre_dict (Str g) = Inl KeyError)
   \<and> ((direc, True) \<in> set entries \<and> to_int (py_slice (- 10) (- 4) direc) = Inr k
        \<and> genre_top_of tracks k = Inr (Str g) \<and> g \<notin> set vocabulary \<longrightarrow>
      (\<exists>e. GetGenres to_int (Dir entries) genre_dict tracks = Inl e))"
proof (intro conjI allI impI)
  show "map genre_dict vocabulary = map Some [0, 1, 2, 3, 4, 5, 6, 7]"
    by (simp add: genre_dict_def vocabulary_def)
  show "dom genre_dict = set vocabulary"
    by (rule genre_dict_dom)
  show "dict_getitem genre_dict (Str g) = Inl KeyError" if "g \<notin> set vocabulary" for g
    using that by (rule dict_getitem_unknown)
  assume a: "(direc, True) \<in> set entries \<and> to_int (py_slice (- 10) (- 4) direc) = Inr k
        \<and> genre_top_of tracks k = Inr (Str g) \<and> g \<notin> set vocabulary"
  then have "\<forall>k g c. to_int (py_slice (- 10) (- 4) direc) = Inr k
      \<longrightarrow> genre_top_of tracks k = Inr g \<longrightarrow> dict_getitem genre_dict g \<noteq> Inr c"
    by (auto simp: dict_getitem_unknown)
  with a have "\<exists>e. GetGenres_loop to_int genre_dict tracks entries ([], []) = Inl e"
    using GetGenres_loop_raises by blast
  then show "\<exists>e. GetGenres to_int (Dir entries) genre_dict tracks = Inl e"
    by (simp add: GetGenres_def iterdir_def)
qed

theorem genre_encoding_witness:
  "\<exists>e. GetGenres (\<lambda>s. if s = ''000002'' then Inr 2 else Inl ValueError)
          (Dir [(''data/audio/000002.mp3'', True)]) genre_dict [(2, Str ''Jazz'')] = Inl e"
  using genre_encoding
    [of "''data/audio/000002.mp3''" "[(''data/audio/000002.mp3'', True)]"
        "\<lambda>s. if s = ''000002'' then Inr 2 else Inl ValueError" 2 "[(2, Str ''Jazz'')]" "''Jazz''"]
  by (simp add: py_slice_def slice_index_def genre_top_of_def vocabulary_def)

section \<open>Loading the spectrograms\<close>

lemma lookup_genre_missing:
  "id_track \<notin> set id_list \<Longrightarrow> lookup_genre id_list genre_list id_track = Inl IndexError"
proof -
  assume a: "id_track \<notin> set id_list"
  have "filter (\<lambda>k. id_list ! k = id_track) [0..<length id_list] = []"
    using a by (auto simp: filter_empty_conv)
  then show ?thesis by (simp add: lookup_genre_def)
qed

lemma lookup_genre_Inr:
  assumes "lookup_genre id_list genre_list id_track = Inr g"
  shows "\<exists>k. k < length id_list \<and> k < length genre_list \<and> id_list ! k = id_track
              \<and> (\<forall>j < k. id_list ! j \<noteq> id_track) \<and> g = genre_list ! k"
proof -
  let ?hits = "filter (\<lambda>k. id_list ! k = id_track) [0..<length id_list]"
  from assms obtain k ks where h: "?hits = k # ks" and g: "g = genre_list ! k"
    and inb: "\<not> list_ex (\<lambda>k. length genre_list \<le> k) ?hits"
    by (auto simp: lookup_genre_def Let_def split: if_splits list.splits)
  have kin: "k \<in> set ?hits" using h by simp
  then have k1: "k < length id_list" "id_list ! k = id_track" by auto
  have k2: "k < length genre_list" using inb kin by (auto simp: list_ex_iff)
  have "\<forall>j < k. id_list ! j \<noteq> id_track"
  proof (intro allI impI notI)
    fix j assume j: "j < k" "id_list ! j = id_track"
    have "sorted ?hits" by (simp add: sorted_wrt_filter)
    then have "\<forall>x \<in> set ?hits. k \<le> x" using h by auto
    moreover have "j \<in> set ?hits" using j k1 by auto
    ultimately show False using j by auto
  qed
  then show ?thesis using k1 k2 g by blast
qed

lemma lookup_genre_total:
  assumes "id_track \<in> set id_list" "length id_list \<le> length genre_list"
  shows "\<exists>g. lookup_genre id_list genre_list id_track = Inr g"
proof -
  let ?hits = "filter (\<lambda>k. id_list ! k = id_track) [0..<length id_list]"
  have "?hits \<noteq> []" using assms(1) by (auto simp: filter_empty_conv in_set_conv_nth)
  moreover have "\<not> list_ex (\<lambda>k. length genre_list \<le> k) ?hits"
    using assms(2) by (auto simp: list_ex_iff)
  ultimately show ?thesis
    by (auto simp: lookup_genre_def Let_def split: list.splits)
qed

lemma ChargeDataset_loop_Inr:
  "ChargeDataset_loop db il gl entries (im, lb) = Inr (images, labels) \<Longrightarrow>
     \<exists>im' lb'. images = im @ im' \<and> labels = lb @ lb' \<and> length im' = length entries
       \<and> length lb' = length entries
       \<and> (\<forall>i < length entries. ChargeDataset_body db il gl (entries ! i) = Inr (im' ! i, lb' ! i))"
proof (induction entries arbitrary: im lb)
  case Nil
  then show ?case by simp
next
  case (Cons ent rest)
  from Cons.prems obtain s l where b: "ChargeDataset_body db il gl ent = Inr (s, l)"
    and r: "ChargeDataset_loop db il gl rest (im @ [s], lb @ [l]) = Inr (images, labels)"
    by (auto split: sum.splits)
  from Cons.IH [OF r] obtain im' lb' where
    h: "images = (im @ [s]) @ im'" "labels = (lb @ [l]) @ lb'" "length im' = length rest"
       "length lb' = length rest"
       "\<forall>i < length rest. ChargeDataset_body db il gl (rest ! i) = Inr (im' ! i, lb' ! i)"
    by blast
  have "\<forall>i < length (ent # rest).
          ChargeDataset_body db il gl ((ent # rest) ! i) = Inr ((s # im') ! i, (l # lb') ! i)"
    using b h(5) by (auto simp: nth_Cons')
  then show ?case using h(1-4)
    by (intro exI [of _ "s # im'"] exI [of _ "l # lb'"]) simp
qed

lemma ChargeDataset_loop_raises:
  assumes "ent \<in> set entries" "\<exists>e. ChargeDataset_body db il gl ent = Inl e"
  shows "\<exists>e. ChargeDataset_loop db il gl entries acc = Inl e"
  using assms
proof (induction entries arbitrary: acc)
  case Nil
  then show ?case by simp
next
  case (Cons x rest)
  obtain im lb where acc: "acc = (im, lb)" by (cases acc)
  show ?case
  proof (cases "\<exists>e. ChargeDataset_body db il gl x = Inl e")
    case True
    then show ?thesis using acc by auto
  next
    case False
    then have "ent \<in> set rest" using Cons.prems by auto
    then have "\<And>acc. \<exists>e. ChargeDataset_loop db il gl rest acc = Inl e"
      using Cons.IH Cons.prems(2) by blast
    then show ?thesis using acc by (auto split: sum.splits)
  qed
qed

lemma ChargeDataset_loop_total:
  assumes "\<forall>ent \<in> set entries. \<exists>r. ChargeDataset_body db il gl ent = Inr r"
  shows "\<exists>r. ChargeDataset_loop db il gl entries acc = Inr r"
  using assms
proof (induction entries arbitrary: acc)
  case Nil
  then show ?case by simp
next
  case (Cons x rest)
  obtain im lb where acc: "acc = (im, lb)" by (cases acc)
  from Cons.prems obtain s l where b: "ChargeDataset_body db il gl x = Inr (s, l)" by auto
  have "\<And>acc. \<exists>r. ChargeDataset_loop db il gl rest acc = Inr r"
    using Cons.IH Cons.prems by simp
  then show ?case using acc b by simp
qed


text \<open>
  C8. When some file of the spectrogram directory carries an identifier that does not
  occur in \<open>id_list\<close>, \<open>ChargeDataset\<close> raises: no entry is skipped and nothing is
  returned. When it returns, it returns one array and one label per file, in order: the
  array is the converted content of the file and the label is the genre at the first
  position of \<open>id_list\<close> holding the file's identifier. It does return when every
  identifier occurs, every position has a genre, and every load and conversion succeeds.
\<close>

theorem ChargeDataset_pairs:
  fixes power_to_db :: "'a ndarray \<Rightarrow> py_error + 'a ndarray"
  shows
  "((\<exists>ent \<in> set entries. py_slice 18 (- 3) (fst ent) \<notin> set id_list) \<longrightarrow>
      (\<exists>e. ChargeDataset power_to_db (Dir entries) id_list genre_list = Inl e))
   \<and> (\<forall>images labels.
        ChargeDataset power_to_db (Dir entries) id_list genre_list = Inr (images, labels) \<longrightarrow>
        length images = length entries \<and> length labels = length entries
        \<and> (\<forall>i < length entries. \<exists>raw k.
              snd (entries ! i) = Artifact raw \<and> power_to_db raw = Inr (images ! i)
              \<and> k < length id_list \<and> k < length genre_list
              \<and> id_list ! k = py_slice 18 (- 3) (fst (entries ! i))
              \<and> (\<forall>j < k. id_list ! j \<noteq> py_slice 18 (- 3) (fst (entries ! i)))
              \<and> labels ! i = genre_list ! k))
   \<and> (length id_list \<le> length genre_list
        \<and> (\<forall>ent \<in> set entries. py_slice 18 (- 3) (fst ent) \<in> set id_list
              \<and> (\<exists>raw out. snd ent = Artifact raw \<and> power_to_db raw = Inr out)) \<longrightarrow>
      (\<exists>images labels.
         ChargeDataset power_to_db (Dir entries) id_list genre_list = Inr (images, labels)))"
proof (intro conjI impI allI)
  assume "\<exists>ent \<in> set entries. py_slice 18 (- 3) (fst ent) \<notin> set id_list"
  then obtain ent where ent: "ent \<in> set entries"
    and "py_slice 18 (- 3) (fst ent) \<notin> set id_list" by blast
  then have "ChargeDataset_body power_to_db id_list genre_list ent = Inl IndexError"
    by (simp add: ChargeDataset_body_def lookup_genre_missing)
  then have "\<exists>e. ChargeDataset_body power_to_db id_list genre_list ent = Inl e"
    by blast
  then have "\<exists>e. ChargeDataset_loop power_to_db id_list genre_list entries ([], []) = Inl e"
    by (rule ChargeDataset_loop_raises [OF ent])
  then show "\<exists>e. ChargeDataset power_to_db (Dir entries) id_list genre_list = Inl e"
    by (simp add: ChargeDataset_def iterdir_def)
next
  fix images labels
  assume r: "ChargeDataset power_to_db (Dir entries) id_list genre_list = Inr (images, labels)"
  then have "ChargeDataset_loop power_to_db id_list genre_list entries ([], [])
               = Inr (images, labels)"
    by (simp add: ChargeDataset_def iterdir_def)
  from ChargeDataset_loop_Inr [OF this]
  have len: "length images = length entries" "length labels = length entries"
    and body: "\<forall>i < length entries.
      ChargeDataset_body power_to_db id_list genre_list (entries ! i) = Inr (images ! i, labels ! i)"
    by auto
  show "length images = length entries" by (rule len(1))
  show "length labels = length entries" by (rule len(2))
  fix i assume i: "i < length entries"
  let ?id = "py_slice 18 (- 3) (fst (entries ! i))"
  from body i
  have b: "ChargeDataset_body power_to_db id_list genre_list (entries ! i)
             = Inr (images ! i, labels ! i)" by simp
  then obtain raw where lg: "lookup_genre id_list genre_list ?id = Inr (labels ! i)"
    and raw: "snd (entries ! i) = Artifact raw" and db: "power_to_db raw = Inr (images ! i)"
    by (auto simp: ChargeDataset_body_def torch_load_def Let_def
             split: sum.splits file_content.splits)
  from lookup_genre_Inr [OF lg] raw db
  show "\<exists>raw k. snd (entries ! i) = Artifact raw \<and> power_to_db raw = Inr (images ! i)
          \<and> k < length id_list \<and> k < length genre_list \<and> id_list ! k = ?id
          \<and> (\<forall>j < k. id_list ! j \<noteq> ?id) \<and> labels ! i = genre_list ! k"
    by blast
next
  assume a: "length id_list \<le> length genre_list
        \<and> (\<forall>ent \<in> set entries. py_slice 18 (- 3) (fst ent) \<in> set id_list
              \<and> (\<exists>raw out. snd ent = Artifact raw \<and> power_to_db raw = Inr out))"
  have "\<exists>r. ChargeDataset_body power_to_db id_list genre_list ent = Inr r"
    if "ent \<in> set entries" for ent
  proof -
    from a that obtain raw out where "snd ent = Artifact raw" "power_to_db raw = Inr out"
      and "py_slice 18 (- 3) (fst ent) \<in> set id_list" by blast
    moreover from this a obtain g where
      "lookup_genre id_list genre_list (py_slice 18 (- 3) (fst ent)) = Inr g"
      using lookup_genre_total by blast
    ultimately show ?thesis
      by (simp add: ChargeDataset_body_def torch_load_def)
  qed
  then have "\<exists>r. ChargeDataset_loop power_to_db id_list genre_list entries ([], []) = Inr r"
    using ChargeDataset_loop_total by blast
  then show "\<exists>images labels.
      ChargeDataset power_to_db (Dir entries) id_list genre_list = Inr (images, labels)"
    by (auto simp: ChargeDataset_def iterdir_def)
qed

theorem ChargeDataset_pairs_witness:
  "(\<exists>e. ChargeDataset (\<lambda>a. Inr a)
           (Dir [(''data/Spectrograms/000009.pt'', Artifact \<lparr>ncols = 1, rows = [[1 :: int]]\<rparr>)])
           [''000005'', ''000002''] [6 :: int, 7] = Inl e)
   \<and> (\<exists>images labels. ChargeDataset (\<lambda>a. Inr a)
           (Dir [(''data/Spectrograms/000002.pt'', Artifact \<lparr>ncols = 1, rows = [[1 :: int]]\<rparr>)])
           [''000005'', ''000002''] [6 :: int, 7] = Inr (images, labels)
         \<and> labels ! 0 = 7)"
proof -
  let ?a = "\<lparr>ncols = 1, rows = [[1 :: int]]\<rparr>"
  let ?db = "\<lambda>a :: int ndarray. Inr a :: py_error + int ndarray"
  note bad = ChargeDataset_pairs [of "[(''data/Spectrograms/000009.pt'', Artifact ?a)]"
      "[''000005'', ''000002'']" ?db "[6 :: int, 7]"]
  note good = ChargeDataset_pairs [of "[(''data/Spectrograms/000002.pt'', Artifact ?a)]"
      "[''000005'', ''000002'']" ?db "[6 :: int, 7]"]
  have 1: "\<exists>e. ChargeDataset ?db (Dir [(''data/Spectrograms/000009.pt'', Artifact ?a)])
           [''000005'', ''000002''] [6 :: int, 7] = Inl e"
    using bad by (simp add: py_slice_def slice_index_def)
  obtain images labels where
    r: "ChargeDataset ?db (Dir [(''data/Spectrograms/000002.pt'', Artifact ?a)])
           [''000005'', ''000002''] [6 :: int, 7] = Inr (images, labels)"
    using good by (auto simp: py_slice_def slice_index_def)
  have "labels ! 0 = 7"
    using good r
    by (auto simp: py_slice_def slice_index_def nth_Cons' less_Suc_eq split: if_splits)
  then show ?thesis using 1 r by blast
qed


section \<open>Extraction\<close>

lemma to_mono_two:
  assumes "length l = length r"
  shows "to_mono [l, r] = map (\<lambda>(a, b). (a + b) / 2) (zip l r)"
proof (rule nth_equalityI)
  show "length (to_mono [l, r]) = length (map (\<lambda>(a, b). (a + b) / 2) (zip l r))"
    using assms by (simp add: to_mono_def)
next
  fix i assume "i < length (to_mono [l, r])"
  then have "i < length l" by (simp add: to_mono_def)
  then show "to_mono [l, r] ! i = map (\<lambda>(a, b). (a + b) / 2) (zip l r) ! i"
    using assms by (simp add: to_mono_def)
qed

lemma to_mono_one: "to_mono [m] = m"
  by (simp add: to_mono_def map_nth)

lemma body_unfold:
  "CreateSpectrograms_body libs save_path fl fs =
     (case read_channels libs fl of
        Inl e \<Rightarrow> Inl e
      | Inr (channels, sr) \<Rightarrow>
          (case melspectrogram libs (to_mono channels) sr 2048 512 of
             Inl e \<Rightarrow> Inl e
           | Inr spec \<Rightarrow>
               if save_ok libs spec (artifact_path save_path fl)
               then Inr (if 1 < length (to_mono channels)
                         then Sample ((to_mono channels ! 0 + to_mono channels ! 1) / 2)
                         else Signal (to_mono channels),
                         AList.update (artifact_path save_path fl) (Artifact spec) fs)
               else Inl LibError))"
  by (simp add: CreateSpectrograms_body_def librosa_load_def torch_save_def Let_def
        split: sum.split prod.split)

lemma processed_iff:
  "processed libs save_path fl \<longleftrightarrow>
     (\<exists>channels sr spec. read_channels libs fl = Inr (channels, sr)
        \<and> melspectrogram libs (to_mono channels) sr 2048 512 = Inr spec
        \<and> save_ok libs spec (artifact_path save_path fl))"
proof
  assume "processed libs save_path fl"
  then show "\<exists>channels sr spec. read_channels libs fl = Inr (channels, sr)
        \<and> melspectrogram libs (to_mono channels) sr 2048 512 = Inr spec
        \<and> save_ok libs spec (artifact_path save_path fl)"
    unfolding processed_def body_unfold
    by (cases "read_channels libs fl") (auto split: sum.splits if_splits)
next
  assume "\<exists>channels sr spec. read_channels libs fl = Inr (channels, sr)
        \<and> melspectrogram libs (to_mono channels) sr 2048 512 = Inr spec
        \<and> save_ok libs spec (artifact_path save_path fl)"
  then obtain channels sr spec where "read_channels libs fl = Inr (channels, sr)"
    "melspectrogram libs (to_mono channels) sr 2048 512 = Inr spec"
    "save_ok libs spec (artifact_path save_path fl)" by blast
  then show "processed libs save_path fl"
    unfolding processed_def body_unfold by simp
qed

lemma body_processed:
  assumes "processed libs save_path fl"
  shows "\<exists>w channels sr spec.
           CreateSpectrograms_body libs save_path fl fs
             = Inr (w, AList.update (artifact_path save_path fl) (Artifact spec) fs)
         \<and> read_channels libs fl = Inr (channels, sr)
         \<and> melspectrogram libs (to_mono channels) sr 2048 512 = Inr spec"
proof -
  from assms obtain channels sr spec where
    h: "read_channels libs fl = Inr (channels, sr)"
       "melspectrogram libs (to_mono channels) sr 2048 512 = Inr spec"
       "save_ok libs spec (artifact_path save_path fl)"
    unfolding processed_iff by blast
  then have "\<exists>w. CreateSpectrograms_body libs save_path fl fs
             = Inr (w, AList.update (artifact_path save_path fl) (Artifact spec) fs)"
    unfolding body_unfold by simp
  with h(1,2) show ?thesis by blast
qed

lemma body_not_processed:
  assumes "\<not> processed libs save_path fl"
  shows "\<exists>e. CreateSpectrograms_body libs save_path fl fs = Inl e"
proof (cases "CreateSpectrograms_body libs save_path fl fs")
  case (Inl e)
  then show ?thesis by blast
next
  case (Inr r)
  then have "\<exists>r. CreateSpectrograms_body libs save_path fl [] = Inr r"
    unfolding body_unfold by (auto split: sum.splits prod.splits if_splits)
  then have "processed libs save_path fl"
    unfolding processed_def by auto
  with assms show ?thesis by simp
qed




lemma CreateSpectrograms_loop_untouched:
  "p \<notin> artifact_path save_path ` {f \<in> set files. processed libs save_path f} \<Longrightarrow>
     map_of (CreateSpectrograms_loop libs save_path files fs) p = map_of fs p"
proof (induction files arbitrary: fs)
  case Nil
  then show ?case by simp
next
  case (Cons fl rest)
  have rest: "p \<notin> artifact_path save_path ` {f \<in> set rest. processed libs save_path f}"
    using Cons.prems by auto
  show ?case
  proof (cases "processed libs save_path fl")
    case True
    then obtain w spec where
      b: "CreateSpectrograms_body libs save_path fl fs
         = Inr (w, AList.update (artifact_path save_path fl) (Artifact spec) fs)"
      using body_processed by blast
    have "p \<noteq> artifact_path save_path fl" using True Cons.prems by auto
    then show ?thesis
      using b Cons.IH [OF rest, of "AList.update (artifact_path save_path fl) (Artifact spec) fs"]
      by (simp add: update_conv')
  next
    case False
    then obtain e where "CreateSpectrograms_body libs save_path fl fs = Inl e"
      using body_not_processed by blast
    then show ?thesis using Cons.IH [OF rest, of fs] by simp
  qed
qed

lemma CreateSpectrograms_loop_written:
  assumes "f \<in> set files" "processed libs save_path f"
  shows "\<exists>g \<in> set files. artifact_path save_path g = artifact_path save_path f
           \<and> (\<exists>channels sr spec. read_channels libs g = Inr (channels, sr)
                 \<and> melspectrogram libs (to_mono channels) sr 2048 512 = Inr spec
                 \<and> map_of (CreateSpectrograms_loop libs save_path files fs)
                      (artifact_path save_path f) = Some (Artifact spec))"
  using assms
proof (induction files arbitrary: fs f)
  case Nil
  then show ?case by simp
next
  case (Cons fl rest)
  let ?p = "artifact_path save_path f"
  show ?case
  proof (cases "\<exists>g \<in> set rest. processed libs save_path g \<and> artifact_path save_path g = ?p")
    case True
    then obtain g where g: "g \<in> set rest" "processed libs save_path g"
      "artifact_path save_path g = ?p" by blast
    obtain fs1 where step: "CreateSpectrograms_loop libs save_path (fl # rest) fs
                      = CreateSpectrograms_loop libs save_path rest fs1"
      by (cases "CreateSpectrograms_body libs save_path fl fs") (auto split: prod.splits)
    from Cons.IH [OF g(1,2), of fs1] g(3) step
    show ?thesis by auto
  next
    case False
    then have "f \<notin> set rest" using Cons.prems(2) by blast
    then have ffl: "f = fl" using Cons.prems(1) by simp
    then obtain w channels sr spec where
      b: "CreateSpectrograms_body libs save_path fl fs
            = Inr (w, AList.update ?p (Artifact spec) fs)"
      and c: "read_channels libs fl = Inr (channels, sr)"
        "melspectrogram libs (to_mono channels) sr 2048 512 = Inr spec"
      using body_processed [of libs save_path fl fs] Cons.prems(2) by auto
    have "?p \<notin> artifact_path save_path ` {f \<in> set rest. processed libs save_path f}"
      using False by auto
    then have "map_of (CreateSpectrograms_loop libs save_path rest (AList.update ?p (Artifact spec) fs)) ?p
                 = map_of (AList.update ?p (Artifact spec) fs) ?p"
      by (rule CreateSpectrograms_loop_untouched)
    then have "map_of (CreateSpectrograms_loop libs save_path (fl # rest) fs) ?p
                 = Some (Artifact spec)"
      using b by (simp add: update_conv')
    then show ?thesis using c ffl by auto
  qed
qed



text \<open>
  C1. Every file that the body processes is loaded as the average of its channels: for
  two channels the sample-by-sample mean \<open>(l + r) / 2\<close>, for one channel the channel
  itself. The spectrogram is computed from that mono signal with window 2048 and hop
  512, and it is what is written under the file's artifact path. When the artifact paths
  of the inputs are distinct, the directory after the run holds, for every processed
  file, the spectrogram of its own mono signal.
\<close>

theorem CreateSpectrograms_mono_spectrogram:
  "(\<forall>w fs'. CreateSpectrograms_body libs save_path f fs = Inr (w, fs') \<longrightarrow>
       (\<exists>channels sr spec. read_channels libs f = Inr (channels, sr)
          \<and> librosa_load libs f = Inr (to_mono channels, sr)
          \<and> melspectrogram libs (to_mono channels) sr 2048 512 = Inr spec
          \<and> fs' = AList.update (artifact_path save_path f) (Artifact spec) fs
          \<and> map_of fs' (artifact_path save_path f) = Some (Artifact spec)))
   \<and> (\<forall>l r. length l = length r \<longrightarrow>
          to_mono [l, r] = map (\<lambda>(a, b). (a + b) / 2) (zip l r))
   \<and> (\<forall>m. to_mono [m] = m)
   \<and> (inj_on (artifact_path save_path) (fst ` set entries) \<longrightarrow>
        (\<exists>fs'. CreateSpectrograms libs (Dir entries) save_path fs = Inr fs'
           \<and> (\<forall>g \<in> fst ` set entries. processed libs save_path g \<longrightarrow>
                 (\<exists>channels sr spec. read_channels libs g = Inr (channels, sr)
                    \<and> melspectrogram libs (to_mono channels) sr 2048 512 = Inr spec
                    \<and> map_of fs' (artifact_path save_path g) = Some (Artifact spec)))))"
proof (intro conjI allI impI)
  fix w fs'
  assume b: "CreateSpectrograms_body libs save_path f fs = Inr (w, fs')"
  then obtain channels sr spec where
    h: "read_channels libs f = Inr (channels, sr)"
       "melspectrogram libs (to_mono channels) sr 2048 512 = Inr spec"
       "fs' = AList.update (artifact_path save_path f) (Artifact spec) fs"
    unfolding body_unfold by (auto split: sum.splits prod.splits if_splits)
  have "librosa_load libs f = Inr (to_mono channels, sr)"
    using h(1) by (simp add: librosa_load_def)
  moreover have "map_of fs' (artifact_path save_path f) = Some (Artifact spec)"
    using h(3) by (simp add: update_conv')
  ultimately show "\<exists>channels sr spec. read_channels libs f = Inr (channels, sr)
          \<and> librosa_load libs f = Inr (to_mono channels, sr)
          \<and> melspectrogram libs (to_mono channels) sr 2048 512 = Inr spec
          \<and> fs' = AList.update (artifact_path save_path f) (Artifact spec) fs
          \<and> map_of fs' (artifact_path save_path f) = Some (Artifact spec)"
    using h by blast
next
  fix l r :: "real list"
  assume "length l = length r"
  then show "to_mono [l, r] = map (\<lambda>(a, b). (a + b) / 2) (zip l r)"
    by (rule to_mono_two)
next
  fix m show "to_mono [m] = m" by (rule to_mono_one)
next
  assume inj: "inj_on (artifact_path save_path) (fst ` set entries)"
  let ?fs' = "CreateSpectrograms_loop libs save_path (map fst entries) fs"
  have r: "CreateSpectrograms libs (Dir entries) save_path fs = Inr ?fs'"
    by (simp add: CreateSpectrograms_def iterdir_def)
  have "\<forall>g \<in> fst ` set entries. processed libs save_path g \<longrightarrow>
                 (\<exists>channels sr spec. read_channels libs g = Inr (channels, sr)
                    \<and> melspectrogram libs (to_mono channels) sr 2048 512 = Inr spec
                    \<and> map_of ?fs' (artifact_path save_path g) = Some (Artifact spec))"
  proof (intro ballI impI)
    fix g assume g: "g \<in> fst ` set entries" "processed libs save_path g"
    then have "g \<in> set (map fst entries)" by simp
    from CreateSpectrograms_loop_written [OF this g(2), of fs]
    obtain g' channels sr spec where g': "g' \<in> set (map fst entries)"
      "artifact_path save_path g' = artifact_path save_path g"
      "read_channels libs g' = Inr (channels, sr)"
      "melspectrogram libs (to_mono channels) sr 2048 512 = Inr spec"
      "map_of ?fs' (artifact_path save_path g) = Some (Artifact spec)"
      by blast
    have "g' = g"
      using inj g(1) g'(1,2) by (auto dest: inj_onD)
    with g' show "\<exists>channels sr spec. read_channels libs g = Inr (channels, sr)
                    \<and> melspectrogram libs (to_mono channels) sr 2048 512 = Inr spec
                    \<and> map_of ?fs' (artifact_path save_path g) = Some (Artifact spec)"
      by blast
  qed
  with r show "\<exists>fs'. CreateSpectrograms libs (Dir entries) save_path fs = Inr fs'
           \<and> (\<forall>g \<in> fst ` set entries. processed libs save_path g \<longrightarrow>
                 (\<exists>channels sr spec. read_channels libs g = Inr (channels, sr)
                    \<and> melspectrogram libs (to_mono channels) sr 2048 512 = Inr spec
                    \<and> map_of fs' (artifact_path save_path g) = Some (Artifact spec)))"
    by blast
qed

theorem CreateSpectrograms_mono_spectrogram_witness:
  "CreateSpectrograms_body
     \<lparr>read_channels = (\<lambda>f. Inr ([[1, 3], [5, 7]], 22050)),
      melspectrogram = (\<lambda>w sr n h. Inr \<lparr>ncols = length w, rows = [w]\<rparr>),
      save_ok = (\<lambda>a p. True)\<rparr>
     ''data/Spectrograms'' ''data/audio/000002.mp3'' []
   = Inr (Sample 4,
          [(''data/Spectrograms/000002.pt'', Artifact \<lparr>ncols = 2, rows = [[3, 5]]\<rparr>)])
   \<and> (\<exists>channels sr.
         read_channels
           \<lparr>read_channels = (\<lambda>f. Inr ([[1, 3], [5, 7]], 22050)),
            melspectrogram = (\<lambda>w sr n h. Inr \<lparr>ncols = length w, rows = [w]\<rparr>),
            save_ok = (\<lambda>a p. True)\<rparr> ''data/audio/000002.mp3'' = Inr (channels, sr)
       \<and> channels = [[1, 3], [5, 7]] \<and> to_mono channels = [3, 5]
       \<and> map_of [(''data/Spectrograms/000002.pt'', Artifact \<lparr>ncols = 2, rows = [[3, 5 :: real]]\<rparr>)]
            (artifact_path ''data/Spectrograms'' ''data/audio/000002.mp3'')
          = Some (Artifact \<lparr>ncols = length (to_mono channels), rows = [to_mono channels]\<rparr>))"
proof -
  let ?libs = "\<lparr>read_channels = (\<lambda>f :: string. Inr ([[1, 3], [5, 7 :: real]], 22050 :: nat)
                                 :: py_error + (real list list \<times> nat)),
        melspectrogram = (\<lambda>(w :: real list) (sr :: nat) (n :: nat) (h :: nat).
                            Inr \<lparr>ncols = length w, rows = [w]\<rparr> :: py_error + real ndarray),
        save_ok = (\<lambda>(a :: real ndarray) (p :: string). True)\<rparr>"
  let ?fs' = "[(''data/Spectrograms/000002.pt'', Artifact \<lparr>ncols = 2, rows = [[3, 5 :: real]]\<rparr>)]"
  have mono: "to_mono [[1, 3], [5, 7]] = [3, 5]"
    by (simp add: to_mono_two)
  have ev: "CreateSpectrograms_body ?libs ''data/Spectrograms'' ''data/audio/000002.mp3'' []
              = Inr (Sample 4, ?fs')"
    unfolding body_unfold
    by (simp add: mono artifact_path_def py_slice_def slice_index_def)
  from CreateSpectrograms_mono_spectrogram
         [of ?libs "''data/Spectrograms''" "''data/audio/000002.mp3''" "[]",
          THEN conjunct1, rule_format, OF ev]
  obtain channels sr spec where
    h: "read_channels ?libs ''data/audio/000002.mp3'' = Inr (channels, sr)"
       "melspectrogram ?libs (to_mono channels) sr 2048 512 = Inr spec"
       "map_of ?fs' (artifact_path ''data/Spectrograms'' ''data/audio/000002.mp3'')
          = Some (Artifact spec)"
    by blast
  from h(1) have c: "channels = [[1, 3], [5, 7]]" by simp
  from h(2) have "spec = \<lparr>ncols = length (to_mono channels), rows = [to_mono channels]\<rparr>"
    by simp
  with h(1,3) c mono ev show ?thesis by blast
qed

section \<open>The extraction guard of the pipeline\<close>

text \<open>
  C9. In a run of \<open>LoadDataPipeline\<close> that reaches the guard (the tables load, the
  genres resolve, the spectrogram directory can be listed), \<open>CreateSpectrograms\<close> is
  called exactly when the directory does not hold 7994 entries. With 7994 entries the
  directory is left as it is; with any other count it is what \<open>CreateSpectrograms\<close>
  makes of it.
\<close>

theorem LoadDataPipeline_guard:
  assumes "csv W = Inr tracks"
    and "GetGenres (int_builtin W) (audio_dir W) genre_dict tracks = Inr ids"
    and "spec_dir W = Dir entries"
  shows "(Called ''CreateSpectrograms'' \<in> set (fst (LoadDataPipeline W))
            \<longleftrightarrow> length entries \<noteq> 7994)
       \<and> (length entries = 7994 \<longrightarrow> fst (snd (LoadDataPipeline W)) = Some entries)
       \<and> (length entries \<noteq> 7994 \<longrightarrow>
            (\<exists>fs. CreateSpectrograms (audio W) (audio_dir W) ''data/Spectrograms'' entries = Inr fs
               \<and> fst (snd (LoadDataPipeline W)) = Some fs))"
proof -
  obtain id_list genre_list where ids: "ids = (id_list, genre_list)" by (cases ids)
  obtain files where dir: "audio_dir W = Dir files"
    using assms(2) by (cases "audio_dir W") (auto simp: GetGenres_def iterdir_def)
  let ?fs = "CreateSpectrograms_loop (audio W) ''data/Spectrograms'' (map fst files) entries"
  have cr: "CreateSpectrograms (audio W) (audio_dir W) ''data/Spectrograms'' entries = Inr ?fs"
    by (simp add: CreateSpectrograms_def dir iterdir_def)
  show ?thesis
  proof (cases "length entries = 7994")
    case True
    then show ?thesis
      using assms(1,2) ids assms(3)
      by (auto simp: LoadDataPipeline_def iterdir_def Let_def split: sum.splits prod.splits)
  next
    case False
    then show ?thesis
      using assms(1,2) ids assms(3) cr
      by (auto simp: LoadDataPipeline_def iterdir_def Let_def split: sum.splits prod.splits)
  qed
qed

theorem LoadDataPipeline_guard_witness:
  "Called ''CreateSpectrograms'' \<notin> set (fst (LoadDataPipeline
      \<lparr>csv = Inr [(2, Str ''Rock'')],
       int_builtin = (\<lambda>s. if s = ''000002'' then Inr 2 else Inl ValueError),
       audio_dir = Dir [(''data/audio/000002.mp3'', True)],
       spec_dir = Dir (replicate 7994 (''data/Spectrograms/000002.pt'', Unreadable)),
       audio = \<lparr>read_channels = (\<lambda>f. Inl LibError), melspectrogram = (\<lambda>w sr n h. Inl LibError),
                 save_ok = (\<lambda>a p. False)\<rparr>,
       db_conversion = (\<lambda>a. Inr a)\<rparr>))
   \<and> Called ''CreateSpectrograms'' \<in> set (fst (LoadDataPipeline
      \<lparr>csv = Inr [(2, Str ''Rock'')],
       int_builtin = (\<lambda>s. if s = ''000002'' then Inr 2 else Inl ValueError),
       audio_dir = Dir [(''data/audio/000002.mp3'', True)],
       spec_dir = Dir (replicate 7993 (''data/Spectrograms/000002.pt'', Unreadable)),
       audio = \<lparr>read_channels = (\<lambda>f. Inl LibError), melspectrogram = (\<lambda>w sr n h. Inl LibError),
                 save_ok = (\<lambda>a p. False)\<rparr>,
       db_conversion = (\<lambda>a. Inr a)\<rparr>))"
proof -
  let ?W = "\<lambda>n. \<lparr>csv = Inr [(2, Str ''Rock'')],
       int_builtin = (\<lambda>s. if s = ''000002'' then Inr 2 else Inl ValueError),
       audio_dir = Dir [(''data/audio/000002.mp3'', True)],
       spec_dir = Dir (replicate n (''data/Spectrograms/000002.pt'', Unreadable)),
       audio = \<lparr>read_channels = (\<lambda>f. Inl LibError), melspectrogram = (\<lambda>w sr n h. Inl LibError),
                 save_ok = (\<lambda>a p. False)\<rparr>,
       db_conversion = (\<lambda>a. Inr a)\<rparr>"
  have g: "GetGenres (\<lambda>s. if s = ''000002'' then Inr 2 else Inl ValueError)
             (Dir [(''data/audio/000002.mp3'', True)]) genre_dict [(2, Str ''Rock'')]
           = Inr ([''000002''], [7])"
    by (simp add: GetGenres_def iterdir_def py_slice_def slice_index_def genre_top_of_def
          dict_getitem_def genre_dict_def)
  have 1: "Called ''CreateSpectrograms'' \<notin> set (fst (LoadDataPipeline (?W 7994)))"
    using LoadDataPipeline_guard [of "?W 7994" "[(2, Str ''Rock'')]" "([''000002''], [7])"
        "replicate 7994 (''data/Spectrograms/000002.pt'', Unreadable)"] g
    by simp
  have 2: "Called ''CreateSpectrograms'' \<in> set (fst (LoadDataPipeline (?W 7993)))"
    using LoadDataPipeline_guard [of "?W 7993" "[(2, Str ''Rock'')]" "([''000002''], [7])"
        "replicate 7993 (''data/Spectrograms/000002.pt'', Unreadable)"] g
    by simp
  show ?thesis using 1 2 by simp
qed


section \<open>Augmentation\<close>

lemma mask_round_pos: "snd (mask_round R fm tm (a, p)) = (fst p + 2, snd p + 2)"
  by (simp add: mask_round_def random_uniform_def np_random_uniform_def Let_def)

lemma augmented_Suc:
  "augmented R (Suc n) fm tm st = augmented R n fm tm (mask_round R fm tm st)"
  by (simp add: augmented_def funpow_swap1)

lemma augmented_pos: "snd (augmented R n fm tm (a, p)) = (fst p + 2 * n, snd p + 2 * n)"
proof (induction n arbitrary: a p)
  case 0
  then show ?case by (simp add: augmented_def)
next
  case (Suc n)
  obtain a' p' where m: "mask_round R fm tm (a, p) = (a', p')" by (cases "mask_round R fm tm (a, p)")
  then have "p' = (fst p + 2, snd p + 2)" using mask_round_pos [of R fm tm a p] by simp
  then show ?case using Suc.IH [of a' p'] m by (simp add: augmented_Suc)
qed

lemma mask_rounds_heap:
  assumes "c < length h"
  shows "mask_rounds R n fm tm c (h, p)
           = (h[c := fst (augmented R n fm tm (h ! c, p))], snd (augmented R n fm tm (h ! c, p)))"
  using assms
proof (induction n arbitrary: h p)
  case 0
  then show ?case by (simp add: augmented_def)
next
  case (Suc n)
  obtain a' p' where m: "mask_round R fm tm (h ! c, p) = (a', p')"
    by (cases "mask_round R fm tm (h ! c, p)")
  have "mask_rounds R (Suc n) fm tm c (h, p) = mask_rounds R n fm tm c (h[c := a'], p')"
    using m by simp
  also have "\<dots> = ((h[c := a'])[c := fst (augmented R n fm tm (a', p'))],
                     snd (augmented R n fm tm (a', p')))"
    using Suc.IH [of "h[c := a']" p'] Suc.prems by simp
  finally show ?case using m by (simp add: augmented_Suc)
qed

lemma spec_augment_eq:
  "spec_augment R h r n fm tm p =
     (length h, h @ [fst (augmented R n fm tm (h ! r, p))], snd (augmented R n fm tm (h ! r, p)))"
  by (simp add: spec_augment_def ndarray_copy_def mask_rounds_heap)

lemma DataSpec_loop_eq:
  fixes h :: "'a::zero heap"
  assumes len: "i + length specs \<le> length genres"
    and fm: "fm = 15 / 100" and tm: "tm = 25 / 100"
  shows "\<exists>new h'. DataSpec_loop R genres i specs ((ns, ga), h, p)
           = Inr ((ns @ new, ga @ take (length specs) (drop i genres)),
                  h @ h', (fst p + 4 * length specs, snd p + 4 * length specs))
         \<and> length new = length specs \<and> length h' = length specs
         \<and> (\<forall>k < length specs. new ! k = length h + k)
         \<and> (\<forall>k < length specs. specs ! k < length h \<longrightarrow>
               h' ! k = fst (augmented R 2 fm tm
                               (h ! (specs ! k), (fst p + 4 * k, snd p + 4 * k))))"
  using len
proof (induction specs arbitrary: i ns ga h p)
  case Nil
  then show ?case by simp
next
  case (Cons spec rest)
  let ?a = "fst (augmented R 2 fm tm (h ! spec, p))"
  let ?p = "(fst p + 4, snd p + 4)"
  have g: "list_get genres i = Inr (genres ! i)"
    using Cons.prems by (simp add: list_get_def)
  have d: "take (Suc (length rest)) (drop i genres)
             = genres ! i # take (length rest) (drop (Suc i) genres)"
    using Cons.prems by (simp add: Cons_nth_drop_Suc [symmetric])
  have step: "DataSpec_loop R genres i (spec # rest) ((ns, ga), h, p)
      = DataSpec_loop R genres (Suc i) rest ((ns @ [length h], ga @ [genres ! i]), h @ [?a], ?p)"
    by (simp add: spec_augment_eq augmented_pos g fm tm)
  from Cons.IH [of "Suc i" "ns @ [length h]" "ga @ [genres ! i]" "h @ [?a]" ?p] Cons.prems
  obtain new h' where
    r: "DataSpec_loop R genres (Suc i) rest ((ns @ [length h], ga @ [genres ! i]), h @ [?a], ?p)
          = Inr (((ns @ [length h]) @ new,
                  (ga @ [genres ! i]) @ take (length rest) (drop (Suc i) genres)),
                 (h @ [?a]) @ h', (fst ?p + 4 * length rest, snd ?p + 4 * length rest))"
    and l: "length new = length rest" "length h' = length rest"
    and n: "\<forall>k < length rest. new ! k = length (h @ [?a]) + k"
    and v: "\<forall>k < length rest. rest ! k < length (h @ [?a]) \<longrightarrow>
               h' ! k = fst (augmented R 2 fm tm
                         ((h @ [?a]) ! (rest ! k), (fst ?p + 4 * k, snd ?p + 4 * k)))"
    by auto
  have res: "DataSpec_loop R genres i (spec # rest) ((ns, ga), h, p)
           = Inr ((ns @ (length h # new), ga @ take (length (spec # rest)) (drop i genres)),
                  h @ (?a # h'),
                  (fst p + 4 * length (spec # rest), snd p + 4 * length (spec # rest)))"
    unfolding step r by (simp add: d)
  have news: "\<forall>k < length (spec # rest). (length h # new) ! k = length h + k"
    using n by (auto simp: nth_Cons')
  have vals: "\<forall>k < length (spec # rest). (spec # rest) ! k < length h \<longrightarrow>
               (?a # h') ! k = fst (augmented R 2 fm tm
                               (h ! ((spec # rest) ! k), (fst p + 4 * k, snd p + 4 * k)))"
  proof (intro allI impI)
    fix k assume k: "k < length (spec # rest)" and b: "(spec # rest) ! k < length h"
    show "(?a # h') ! k = fst (augmented R 2 fm tm
                               (h ! ((spec # rest) ! k), (fst p + 4 * k, snd p + 4 * k)))"
    proof (cases k)
      case 0
      then show ?thesis by simp
    next
      case (Suc j)
      then have j: "j < length rest" "rest ! j < length h" using k b by simp_all
      then have "h' ! j = fst (augmented R 2 fm tm
                         ((h @ [?a]) ! (rest ! j), (fst ?p + 4 * j, snd ?p + 4 * j)))"
        using v by simp
      then show ?thesis using Suc j by (simp add: nth_append add.commute add.left_commute)
    qed
  qed
  show ?case
    using res news vals l
    by (intro exI [of _ "length h # new"] exI [of _ "?a # h'"]) simp
qed


lemma DataSpec_loop_Inr_len:
  fixes h :: "'a::zero heap"
  shows "DataSpec_loop R genres i specs ((ns, ga), h, p) = Inr res
           \<Longrightarrow> specs = [] \<or> i + length specs \<le> length genres"
proof (induction specs arbitrary: i ns ga h p)
  case Nil
  then show ?case
    by simp
next
  case (Cons spec rest)
  obtain c h1 p1 where sa: "spec_augment R h spec 2 (15 / 100) (25 / 100) p = (c, h1, p1)"
    by (cases "spec_augment R h spec 2 (15 / 100) (25 / 100) p") auto
  from Cons.prems sa obtain g where g: "list_get genres i = Inr g"
    and r: "DataSpec_loop R genres (Suc i) rest ((ns @ [c], ga @ [g]), h1, p1) = Inr res"
    by (auto split: sum.splits)
  have "i < length genres"
    using g by (simp add: list_get_def split: if_splits)
  with Cons.IH [OF r] show ?case by auto
qed

lemma fill_slice_example: "fill_slice 2 3 v [a, b, c, d, e] = [a, b, v, d, e]"
  by (simp add: fill_slice_def slice_index_def Let_def eval_nat_numeral)

lemma fill_slice_empty_example: "fill_slice 1 1 v [a, b] = [a, b]"
  by (simp add: fill_slice_def slice_index_def Let_def)

lemma zero_rows_example:
  "zero_rows 2 3 \<lparr>ncols = 2, rows = [r0, r1, r2, r3, r4]\<rparr>
     = \<lparr>ncols = 2, rows = [r0, r1, [0, 0], r3, r4]\<rparr>"
  by (simp add: zero_rows_def fill_slice_example eval_nat_numeral)

lemma zero_columns_example:
  "zero_columns 1 1 \<lparr>ncols = 2, rows = [[a0, b0], [a1, b1], [a2, b2], [a3, b3], [a4, b4]]\<rparr>
     = \<lparr>ncols = 2, rows = [[a0, b0], [a1, b1], [a2, b2], [a3, b3], [a4, b4]]\<rparr>"
  by (simp add: zero_columns_def fill_slice_empty_example)

lemma py_int_examples: "py_int (27 / 100) = 0" "py_int (9 / 8) = 1" "py_int 1 = 1" "py_int 2 = 2"
  by (simp_all add: py_int_def)

lemma mask_round_example:
  "mask_round \<lparr>py_random = (\<lambda>k. 9 / 10), np_random = (\<lambda>k. 1 / 2)\<rparr> (15 / 100) (25 / 100)
     (\<lparr>ncols = 2, rows = [[a0, b0], [a1, b1], [a2, b2], [a3, b3], [a4, b4]]\<rparr>, p)
   = (\<lparr>ncols = 2, rows = [[a0, b0], [a1, b1], [0, 0], [a3, b3], [a4, b4]]\<rparr>,
      (fst p + 2, snd p + 2))"
  apply (simp add: mask_round_def Let_def shape_def nrows_def random_uniform_def
           np_random_uniform_def)
  apply (simp add: py_int_examples zero_rows_example zero_columns_example)
  done

lemma augmented_two:
  "augmented R 2 fm tm st = mask_round R fm tm (mask_round R fm tm st)"
  by (simp add: augmented_def numeral_2_eq_2)

lemma augmented_example:
  "augmented \<lparr>py_random = (\<lambda>k. 9 / 10), np_random = (\<lambda>k. 1 / 2)\<rparr> 2 (15 / 100) (25 / 100)
     (\<lparr>ncols = 2, rows = [[1, 1], [1, 1], [1, 1], [1, 1], [1, 1 :: real]]\<rparr>, (0, 0))
   = (\<lparr>ncols = 2, rows = [[1, 1], [1, 1], [0, 0], [1, 1], [1, 1]]\<rparr>, (4, 4))"
  unfolding augmented_two mask_round_example by simp

lemma DataSpecAugmentation_example:
  "DataSpecAugmentation \<lparr>py_random = (\<lambda>k. 9 / 10), np_random = (\<lambda>k. 1 / 2)\<rparr> [0] [7 :: int]
     [\<lparr>ncols = 2, rows = [[1, 1], [1, 1], [1, 1], [1, 1], [1, 1 :: real]]\<rparr>] (0, 0)
   = Inr ([0, 1], [7, 7],
          [\<lparr>ncols = 2, rows = [[1, 1], [1, 1], [1, 1], [1, 1], [1, 1]]\<rparr>,
           \<lparr>ncols = 2, rows = [[1, 1], [1, 1], [0, 0], [1, 1], [1, 1]]\<rparr>], (4, 4))"
  using augmented_example
  by (simp add: DataSpecAugmentation_def spec_augment_eq list_get_def)

text \<open>
  C5. For lists of equal length (of arrays that exist), \<open>DataSpecAugmentation\<close>
  returns; the spectrogram list is the old one followed by as many new entries, the label
  list is the old one followed by a copy of itself; the k-th new entry is the
  augmentation of the k-th original and stands at the position of the k-th copied label.
\<close>

theorem DataSpecAugmentation_doubles:
  fixes h :: "'a::zero heap"
  assumes "length genres_list = length spec_list" and "\<forall>r \<in> set spec_list. r < length h"
  shows "\<exists>new h' p'.
     DataSpecAugmentation R spec_list genres_list h p
       = Inr (spec_list @ new, genres_list @ genres_list, h', p')
     \<and> length (spec_list @ new) = 2 * length spec_list
     \<and> length (genres_list @ genres_list) = 2 * length genres_list
     \<and> (\<forall>k < length spec_list.
           (spec_list @ new) ! (length spec_list + k) = new ! k
         \<and> (genres_list @ genres_list) ! (length spec_list + k) = genres_list ! k
         \<and> h' ! (new ! k) = fst (augmented R 2 (15 / 100) (25 / 100)
                                  (h ! (spec_list ! k), (fst p + 4 * k, snd p + 4 * k))))"
proof -
  from DataSpec_loop_eq [of 0 spec_list genres_list "15 / 100" "25 / 100" R "[]" "[]" h p] assms(1)
  obtain new h' where
    r: "DataSpec_loop R genres_list 0 spec_list (([], []), h, p)
          = Inr ((new, genres_list), h @ h',
                 (fst p + 4 * length spec_list, snd p + 4 * length spec_list))"
    and l: "length new = length spec_list" "length h' = length spec_list"
    and n: "\<forall>k < length spec_list. new ! k = length h + k"
    and v: "\<forall>k < length spec_list. spec_list ! k < length h \<longrightarrow>
               h' ! k = fst (augmented R 2 (15 / 100) (25 / 100)
                               (h ! (spec_list ! k), (fst p + 4 * k, snd p + 4 * k)))"
    by auto
  have res: "DataSpecAugmentation R spec_list genres_list h p
       = Inr (spec_list @ new, genres_list @ genres_list, h @ h',
              (fst p + 4 * length spec_list, snd p + 4 * length spec_list))"
    by (simp add: DataSpecAugmentation_def r)
  have each: "\<forall>k < length spec_list.
           (spec_list @ new) ! (length spec_list + k) = new ! k
         \<and> (genres_list @ genres_list) ! (length spec_list + k) = genres_list ! k
         \<and> (h @ h') ! (new ! k) = fst (augmented R 2 (15 / 100) (25 / 100)
                                  (h ! (spec_list ! k), (fst p + 4 * k, snd p + 4 * k)))"
  proof (intro allI impI conjI)
    fix k assume k: "k < length spec_list"
    show "(spec_list @ new) ! (length spec_list + k) = new ! k"
      by simp
    show "(genres_list @ genres_list) ! (length spec_list + k) = genres_list ! k"
      using assms(1) by (simp add: nth_append)
    have "spec_list ! k < length h" using assms(2) k by simp
    then show "(h @ h') ! (new ! k) = fst (augmented R 2 (15 / 100) (25 / 100)
                                  (h ! (spec_list ! k), (fst p + 4 * k, snd p + 4 * k)))"
      using n v k by (simp add: nth_append)
  qed
  have "length (spec_list @ new) = 2 * length spec_list"
    "length (genres_list @ genres_list) = 2 * length genres_list"
    using l by simp_all
  with res each show ?thesis by blast
qed

theorem DataSpecAugmentation_doubles_witness:
  "DataSpecAugmentation \<lparr>py_random = (\<lambda>k. 9 / 10), np_random = (\<lambda>k. 1 / 2)\<rparr> [0] [7 :: int]
     [\<lparr>ncols = 2, rows = [[1, 1], [1, 1], [1, 1], [1, 1], [1, 1 :: real]]\<rparr>] (0, 0)
   = Inr ([0, 1], [7, 7],
          [\<lparr>ncols = 2, rows = [[1, 1], [1, 1], [1, 1], [1, 1], [1, 1]]\<rparr>,
           \<lparr>ncols = 2, rows = [[1, 1], [1, 1], [0, 0], [1, 1], [1, 1]]\<rparr>], (4, 4))
   \<and> (\<exists>new h'. [0 :: nat] @ new = [0, 1] \<and> length ([0 :: nat] @ new) = 2 * length [0 :: nat]
         \<and> h' = [\<lparr>ncols = 2, rows = [[1, 1], [1, 1], [1, 1], [1, 1], [1, 1 :: real]]\<rparr>,
                  \<lparr>ncols = 2, rows = [[1, 1], [1, 1], [0, 0], [1, 1], [1, 1]]\<rparr>]
         \<and> h' ! (new ! 0) = \<lparr>ncols = 2, rows = [[1, 1], [1, 1], [0, 0], [1, 1], [1, 1]]\<rparr>)"
proof -
  let ?R = "\<lparr>py_random = (\<lambda>k :: nat. 9 / 10 :: real), np_random = (\<lambda>k :: nat. 1 / 2 :: real)\<rparr>"
  let ?a = "\<lparr>ncols = 2, rows = [[1, 1], [1, 1], [1, 1], [1, 1], [1, 1 :: real]]\<rparr>"
  let ?b = "\<lparr>ncols = 2, rows = [[1, 1], [1, 1], [0, 0], [1, 1], [1, 1 :: real]]\<rparr>"
  have h1: "length [7 :: int] = length [0 :: nat]" by simp
  have h2: "\<forall>r \<in> set [0 :: nat]. r < length [?a]" by simp
  from DataSpecAugmentation_doubles [OF h1 h2, of ?R "(0, 0)"]
  obtain new h' p' where
    r: "DataSpecAugmentation ?R [0] [7 :: int] [?a] (0, 0) = Inr ([0] @ new, [7] @ [7], h', p')"
    and l: "length ([0 :: nat] @ new) = 2 * length [0 :: nat]"
    and e: "\<forall>k < length [0 :: nat].
           ([0] @ new) ! (length [0 :: nat] + k) = new ! k
         \<and> ([7 :: int] @ [7]) ! (length [0 :: nat] + k) = [7] ! k
         \<and> h' ! (new ! k) = fst (augmented ?R 2 (15 / 100) (25 / 100)
                                  ([?a] ! ([0] ! k), (fst (0 :: nat, 0 :: nat) + 4 * k,
                                                       snd (0 :: nat, 0 :: nat) + 4 * k)))"
    by (elim exE conjE)
  from e have "h' ! (new ! 0) = fst (augmented ?R 2 (15 / 100) (25 / 100) (?a, (0, 0)))"
    by simp
  then have v: "h' ! (new ! 0) = ?b"
    unfolding augmented_example by simp
  from r have n: "[0 :: nat] @ new = [0, 1]" and hh: "h' = [?a, ?b]"
    unfolding DataSpecAugmentation_example by simp_all
  from DataSpecAugmentation_example n l hh v show ?thesis by blast
qed

text \<open>
  C10. When \<open>DataSpecAugmentation\<close> returns, the leading part of the spectrogram list
  is the old list, every array that existed before has the value it had, and the appended
  entries are addresses allocated during the call. \<open>spec_augment\<close> itself always works
  on a fresh address and leaves every existing array as it was.
\<close>

theorem DataSpecAugmentation_frame:
  fixes h :: "'a::zero heap"
  assumes "DataSpecAugmentation R spec_list genres_list h p
             = Inr (spec_list', genres_list', h', p')"
  shows "take (length spec_list) spec_list' = spec_list
     \<and> length h \<le> length h' \<and> (\<forall>r < length h. h' ! r = h ! r)
     \<and> (\<forall>r \<in> set (drop (length spec_list) spec_list'). length h \<le> r \<and> r < length h')
     \<and> (\<forall>r n fm tm q. fst (spec_augment R h r n fm tm q) = length h
           \<and> (\<forall>r' < length h. fst (snd (spec_augment R h r n fm tm q)) ! r' = h ! r'))"
proof -
  from assms obtain new ga where
    lp: "DataSpec_loop R genres_list 0 spec_list (([], []), h, p) = Inr ((new, ga), h', p')"
    and sl: "spec_list' = spec_list @ new"
    by (auto simp: DataSpecAugmentation_def split: sum.splits)
  have "spec_list = [] \<or> 0 + length spec_list \<le> length genres_list"
    using DataSpec_loop_Inr_len [OF lp] .
  then have len: "0 + length spec_list \<le> length genres_list" by auto
  from DataSpec_loop_eq [OF len, of "15 / 100" "25 / 100" R "[]" "[]" h p] lp
  obtain hn where hh: "h' = h @ hn" and l: "length new = length spec_list"
    "length hn = length spec_list" and n: "\<forall>k < length spec_list. new ! k = length h + k"
    by auto
  have 1: "take (length spec_list) spec_list' = spec_list" using sl by simp
  have 2: "length h \<le> length h'" using hh by simp
  have 3: "\<forall>r < length h. h' ! r = h ! r" using hh by (simp add: nth_append)
  have 4: "\<forall>r \<in> set (drop (length spec_list) spec_list'). length h \<le> r \<and> r < length h'"
    using sl n l hh by (auto simp: in_set_conv_nth)
  have 5: "\<forall>r n fm tm q. fst (spec_augment R h r n fm tm q) = length h
           \<and> (\<forall>r' < length h. fst (snd (spec_augment R h r n fm tm q)) ! r' = h ! r')"
    by (simp add: spec_augment_eq nth_append)
  from 1 2 3 4 5 show ?thesis by blast
qed

theorem DataSpecAugmentation_frame_witness:
  "DataSpecAugmentation \<lparr>py_random = (\<lambda>k. 9 / 10), np_random = (\<lambda>k. 1 / 2)\<rparr> [0] [7 :: int]
     [\<lparr>ncols = 2, rows = [[1, 1], [1, 1], [1, 1], [1, 1], [1, 1 :: real]]\<rparr>] (0, 0)
   = Inr ([0, 1], [7, 7],
          [\<lparr>ncols = 2, rows = [[1, 1], [1, 1], [1, 1], [1, 1], [1, 1]]\<rparr>,
           \<lparr>ncols = 2, rows = [[1, 1], [1, 1], [0, 0], [1, 1], [1, 1]]\<rparr>], (4, 4))
   \<and> take (length [0 :: nat]) [0, 1 :: nat] = [0]
   \<and> [\<lparr>ncols = 2, rows = [[1, 1], [1, 1], [1, 1], [1, 1], [1, 1 :: real]]\<rparr>,
        \<lparr>ncols = 2, rows = [[1, 1], [1, 1], [0, 0], [1, 1], [1, 1]]\<rparr>] ! 0
       = [\<lparr>ncols = 2, rows = [[1, 1], [1, 1], [1, 1], [1, 1], [1, 1 :: real]]\<rparr>] ! 0"
proof -
  let ?a = "\<lparr>ncols = 2, rows = [[1, 1], [1, 1], [1, 1], [1, 1], [1, 1 :: real]]\<rparr>"
  let ?b = "\<lparr>ncols = 2, rows = [[1, 1], [1, 1], [0, 0], [1, 1], [1, 1 :: real]]\<rparr>"
  note F = DataSpecAugmentation_frame [OF DataSpecAugmentation_example]
  have 1: "take (length [0 :: nat]) [0, 1 :: nat] = [0]"
    by (rule F [THEN conjunct1])
  have "\<forall>r < length [?a]. [?a, ?b] ! r = [?a] ! r"
    by (rule F [THEN conjunct2, THEN conjunct2, THEN conjunct1])
  then have 2: "[?a, ?b] ! 0 = [?a] ! 0"
    by simp
  from DataSpecAugmentation_example 1 2 show ?thesis
    by (intro conjI)
qed

text \<open>
  What one round guarantees, axis by axis: the band of columns (axis 1, which the function
  names frequencies) is at most the fraction \<open>fm\<close> of the column count, the band of rows
  (axis 0, which it names frames) at most the fraction \<open>tm\<close> of the row count, and both
  lie inside the array.
\<close>

lemma mask_round_unfold:
  "fst (mask_round R fm tm (a, p)) =
     zero_rows
       (py_int ((real (nrows a) - real_of_int (py_int (tm * py_random R (Suc (fst p)) * real (nrows a)))) * np_random R (Suc (snd p))))
       (py_int ((real (nrows a) - real_of_int (py_int (tm * py_random R (Suc (fst p)) * real (nrows a)))) * np_random R (Suc (snd p)))
          + py_int (tm * py_random R (Suc (fst p)) * real (nrows a)))
       (zero_columns
          (py_int ((real (ncols a) - real_of_int (py_int (fm * py_random R (fst p) * real (ncols a)))) * np_random R (snd p)))
          (py_int ((real (ncols a) - real_of_int (py_int (fm * py_random R (fst p) * real (ncols a)))) * np_random R (snd p))
             + py_int (fm * py_random R (fst p) * real (ncols a)))
          a)"
  by (simp add: mask_round_def Let_def shape_def random_uniform_def np_random_uniform_def)

lemma band_bounds:
  fixes u v m :: real and n :: nat
  assumes "0 \<le> u" "u < 1" "0 \<le> v" "v < 1" "0 \<le> m" "m \<le> 1"
  shows "\<exists>start width. py_int (m * u * real n) = int width
           \<and> py_int ((real n - real_of_int (py_int (m * u * real n))) * v) = int start
           \<and> real width \<le> m * real n \<and> start + width \<le> n"
proof -
  let ?x = "m * u * real n"
  have x0: "0 \<le> ?x" using assms by simp
  have "m * u \<le> m * 1" using assms by (intro mult_left_mono) simp_all
  then have mu: "m * u \<le> m" by simp
  then have xm: "?x \<le> m * real n" by (simp add: mult_right_mono)
  have "m * real n \<le> 1 * real n" using assms by (intro mult_right_mono) simp_all
  then have xn: "?x \<le> real n" using xm by simp
  define width where "width = nat \<lfloor>?x\<rfloor>"
  have w: "py_int ?x = int width"
    using x0 by (simp add: py_int_def width_def)
  have wle: "real width \<le> ?x"
    using x0 by (simp add: width_def of_nat_floor)
  then have wn: "real width \<le> real n" using xn by simp
  let ?y = "(real n - real_of_int (py_int ?x)) * v"
  have yeq: "?y = (real n - real width) * v" using w by simp
  have y0: "0 \<le> ?y" unfolding yeq using wn assms by simp
  have "(real n - real width) * v \<le> (real n - real width) * 1"
    using wn assms by (intro mult_left_mono) simp_all
  then have yle: "?y \<le> real n - real width" unfolding yeq by simp
  define start where "start = nat \<lfloor>?y\<rfloor>"
  have s: "py_int ?y = int start"
    using y0 by (simp add: py_int_def start_def)
  have "real start \<le> ?y" using y0 by (simp add: start_def of_nat_floor)
  then have "real start + real width \<le> real n" using yle by simp
  then have "start + width \<le> n" by (metis of_nat_add of_nat_le_iff)
  moreover have "real width \<le> m * real n" using wle xm by simp
  ultimately show ?thesis using w s by blast
qed


lemma mask_round_bands:
  assumes "unit_draws R" "0 \<le> fm" "fm \<le> 1" "0 \<le> tm" "tm \<le> 1"
  shows "\<exists>f0 nf t0 nt.
           fst (mask_round R fm tm (a, p))
             = zero_rows (int t0) (int t0 + int nt)
                 (zero_columns (int f0) (int f0 + int nf) a)
         \<and> real nf \<le> fm * real (ncols a) \<and> f0 + nf \<le> ncols a
         \<and> real nt \<le> tm * real (nrows a) \<and> t0 + nt \<le> nrows a"
proof -
  have d: "0 \<le> py_random R k" "py_random R k < 1" "0 \<le> np_random R k" "np_random R k < 1"
    for k
    using assms(1) by (simp_all add: unit_draws_def)
  from band_bounds [OF d(1,2) [of "fst p"] d(3,4) [of "snd p"] assms(2,3), of "ncols a"]
  obtain f0 nf where
    f: "py_int (fm * py_random R (fst p) * real (ncols a)) = int nf"
       "py_int ((real (ncols a)
                  - real_of_int (py_int (fm * py_random R (fst p) * real (ncols a))))
                * np_random R (snd p)) = int f0"
       "real nf \<le> fm * real (ncols a)" "f0 + nf \<le> ncols a"
    by (elim exE conjE)
  from band_bounds [OF d(1,2) [of "Suc (fst p)"] d(3,4) [of "Suc (snd p)"] assms(4,5),
      of "nrows a"]
  obtain t0 nt where
    t: "py_int (tm * py_random R (Suc (fst p)) * real (nrows a)) = int nt"
       "py_int ((real (nrows a)
                  - real_of_int (py_int (tm * py_random R (Suc (fst p)) * real (nrows a))))
                * np_random R (Suc (snd p))) = int t0"
       "real nt \<le> tm * real (nrows a)" "t0 + nt \<le> nrows a"
    by (elim exE conjE)
  have "fst (mask_round R fm tm (a, p))
          = zero_rows (int t0) (int t0 + int nt) (zero_columns (int f0) (int f0 + int nf) a)"
    unfolding mask_round_unfold f(1) t(1) f(2) [unfolded f(1)] t(2) [unfolded t(1)] ..
  with f(3,4) t(3,4) show ?thesis by blast
qed

text \<open>
  C2. Spectrograms of this program are laid out frequency bins by time frames (rows are
  frequency bins, as \<open>FixSizeSpectrogram\<close> and \<open>plot_spectrogram\<close> say), while
  \<open>spec_augment\<close> reads the shape as \<open>(all_frames_num, all_freqs_num)\<close>, so its 25
  percent bound falls on the rows. On an array of 5 frequency bins and 2 time frames,
  with every Python draw 0.9 and every numpy draw 0.5, the copy made by \<open>spec_augment\<close>
  has one of its 5 rows zeroed: a band of frequency bins of width 1, although 15 percent
  of the 5 frequency bins is less than 1.
\<close>

theorem spec_augment_masks_quarter_of_rows:
  "spec_augment \<lparr>py_random = (\<lambda>k. 9 / 10), np_random = (\<lambda>k. 1 / 2)\<rparr>
     [\<lparr>ncols = 2, rows = [[1, 1], [1, 1], [1, 1], [1, 1], [1, 1 :: real]]\<rparr>] 0
     2 (15 / 100) (25 / 100) (0, 0)
   = (1, [\<lparr>ncols = 2, rows = [[1, 1], [1, 1], [1, 1], [1, 1], [1, 1]]\<rparr>,
          \<lparr>ncols = 2, rows = [[1, 1], [1, 1], [0, 0], [1, 1], [1, 1]]\<rparr>], (4, 4))
   \<and> 15 / 100 * real (fst (shape \<lparr>ncols = 2,
           rows = [[1, 1], [1, 1], [1, 1], [1, 1], [1, 1 :: real]]\<rparr>)) < 1"
  using augmented_example by (simp add: spec_augment_eq shape_def nrows_def)

end
